theory Spec2Isabelle
  imports Main "HOL-Library.Word"
begin

section \<open>The C library, as far as extract-buildinfo.c uses it\<close>

text \<open>
  The program reads one file through a \<^verbatim>\<open>FILE *\<close> stream. The stream is a record: the bytes
  of the file, the file position, and the list of the library calls made on it so far (a log
  that the program cannot see and that the claims about the number of reads refer to).
  File lengths and positions are below \<open>2 ^ 63\<close> (a \<^verbatim>\<open>long\<close>).
\<close>

type_synonym byte = "8 word"

datatype io_call = Rewind | is_Fread: Fread nat nat | Fseek int | is_Ftell: Ftell

record FILE =
  content :: "byte list"
  pos :: nat
  calls :: "io_call list"

text \<open>
  What the source leaves to the build and to the machine: whether \<^verbatim>\<open>__APPLE__\<close> is defined;
  for which sizes \<^verbatim>\<open>malloc\<close> returns a buffer; the largest offset that the file system accepts
  in a seek (no file is longer than that); and the memory behind the section-header table
  that the ELF extractor allocates: \<open>out_of_table e i\<close> is the 64 bytes found where entry \<open>i\<close>
  of the table would be, for an \<open>i\<close> that is not an index of the table, and \<open>None\<close> when
  that memory cannot be read.
\<close>

record env =
  apple :: bool
  malloc_ok :: "nat \<Rightarrow> bool"
  seek_max :: nat
  out_of_table :: "nat \<Rightarrow> byte list option"

definition fopen_rb :: "byte list \<Rightarrow> FILE" where
  "fopen_rb bs = \<lparr>content = bs, pos = 0, calls = []\<rparr>"

definition rewind :: "FILE \<Rightarrow> FILE" where
  "rewind f = f\<lparr>pos := 0, calls := calls f @ [Rewind]\<rparr>"

text \<open>
  \<^verbatim>\<open>fseek(f, off, SEEK_SET)\<close> with a \<^verbatim>\<open>long\<close> offset: a negative offset fails, and so does an
  offset larger than the largest one the file system accepts; the position then stays where
  it was (the program never looks at the return value). Any other offset is accepted, also
  one past the end of the file. The file is itself no longer than the file system allows, so
  an offset up to its length is among those accepted.
\<close>

definition seekable :: "env \<Rightarrow> FILE \<Rightarrow> int \<Rightarrow> bool" where
  "seekable e f off \<longleftrightarrow>
     0 \<le> off \<and> (off \<le> int (seek_max e) \<or> off \<le> int (length (content f)))"

definition fseek :: "env \<Rightarrow> int \<Rightarrow> FILE \<Rightarrow> FILE" where
  "fseek e off f =
     (if seekable e f off then f\<lparr>pos := nat off, calls := calls f @ [Fseek off]\<rparr>
      else f\<lparr>calls := calls f @ [Fseek off]\<rparr>)"

definition ftell :: "FILE \<Rightarrow> nat \<times> FILE" where
  "ftell f = (pos f, f\<lparr>calls := calls f @ [Ftell]\<rparr>)"

text \<open>
  \<^verbatim>\<open>fread(buf, sz, nmemb, f)\<close> transfers the bytes that are there, at most \<open>sz * nmemb\<close>,
  advances the position by as many, and returns the number of complete items: \<open>0\<close> when
  \<open>sz\<close> is \<open>0\<close>. The model returns the bytes stored into the buffer and that number.
\<close>

definition fread :: "nat \<Rightarrow> nat \<Rightarrow> FILE \<Rightarrow> (byte list \<times> nat) \<times> FILE" where
  "fread sz nmemb f =
     (let got = take (sz * nmemb) (drop (pos f) (content f));
          n = (if sz = 0 then 0 else length got div sz)
      in ((got, n), f\<lparr>pos := pos f + length got, calls := calls f @ [Fread sz nmemb]\<rparr>))"

text \<open>
  \<^verbatim>\<open>strcmp(buf + off, lit) == 0\<close> for a string literal \<open>lit\<close> (given without its terminator),
  byte by byte from the left, stopping at the first difference. \<open>None\<close>: the comparison
  reaches a byte outside \<open>buf\<close>.
\<close>

fun strcmp_eq :: "byte list \<Rightarrow> nat \<Rightarrow> byte list \<Rightarrow> bool option" where
  "strcmp_eq buf off [] = (if off < length buf then Some (buf ! off = 0) else None)"
| "strcmp_eq buf off (c # cs) =
     (if off < length buf
      then (if buf ! off = c then strcmp_eq buf (Suc off) cs else Some False)
      else None)"

definition bytes_of :: "string \<Rightarrow> byte list" where
  "bytes_of s = map of_char s"

text \<open>Multi-byte fields are read in the byte order of the host, which is little-endian.\<close>

fun le_nat :: "byte list \<Rightarrow> nat" where
  "le_nat [] = 0"
| "le_nat (b # bs) = unat b + 256 * le_nat bs"

definition slice :: "byte list \<Rightarrow> nat \<Rightarrow> nat \<Rightarrow> byte list" where
  "slice buf off n = take n (drop off buf)"

definition u16 :: "byte list \<Rightarrow> nat \<Rightarrow> 16 word" where
  "u16 buf off = of_nat (le_nat (slice buf off 2))"

definition u32 :: "byte list \<Rightarrow> nat \<Rightarrow> 32 word" where
  "u32 buf off = of_nat (le_nat (slice buf off 4))"

definition u64 :: "byte list \<Rightarrow> nat \<Rightarrow> 64 word" where
  "u64 buf off = of_nat (le_nat (slice buf off 8))"

section \<open>Outcomes\<close>

text \<open>
  A run either prints bytes on standard output and returns 0 (\<open>Inr\<close>), or prints a
  diagnostic on standard error and returns 1 (\<open>Failure\<close>), or leaves what C defines and is
  followed no further (\<open>Undefined\<close>): a string comparison runs outside its buffer, a read
  stores bytes behind the end of its buffer, a \<^verbatim>\<open>long\<close> overflows, or memory that cannot be
  read is read. One access outside an object is followed: the read of a section header
  behind the section-header table, which finds what \<open>out_of_table\<close> holds.
\<close>

datatype error = Failure string | Undefined

type_synonym result = "error + byte list"

fun exit_status :: "result \<Rightarrow> int option" where
  "exit_status (Inr out) = Some 0"
| "exit_status (Inl (Failure msg)) = Some 1"
| "exit_status (Inl Undefined) = None"

fun stdout_of :: "result \<Rightarrow> byte list" where
  "stdout_of (Inr out) = out"
| "stdout_of (Inl e) = []"

section \<open>Printing a section\<close>

text \<open>
  Lines 74 to 97 and lines 156 to 174 are the same code up to the diagnostic and the type of
  the offset: \<^verbatim>\<open>malloc(size + 1)\<close> in 64 bits, seek, read one item of \<open>size\<close> bytes, terminate
  the buffer, \<^verbatim>\<open>printf("%s", data)\<close>. The read stores the bytes it gets even when they are
  fewer than \<open>size\<close>; they overflow the buffer when \<open>size + 1\<close> has wrapped to 0. \<^verbatim>\<open>printf\<close>
  stops at the first zero byte.
\<close>

definition print_section :: "env \<Rightarrow> string \<Rightarrow> int \<Rightarrow> 64 word \<Rightarrow> FILE \<Rightarrow> result \<times> FILE" where
  "print_section e what off sz f =
     (if \<not> malloc_ok e (unat (sz + 1))
      then (Inl (Failure ''Memory allocation failed\<newline>''), f)
      else
        let f1 = fseek e off f;
            ((data, n), f2) = fread (unat sz) 1 f1
        in if unat (sz + 1) < length data then (Inl Undefined, f2)
           else if n \<noteq> 1
           then (Inl (Failure (''Failed to read '' @ what @ '' section\<newline>'')), f2)
           else (Inr (takeWhile (\<lambda>b. b \<noteq> 0) data), f2))"

section \<open>The ELF extractor\<close>

text \<open>
  The structures of the system's ELF header file, with the fields the program reads and
  their offsets: an \<^verbatim>\<open>Elf64_Ehdr\<close> is 64 bytes (\<^verbatim>\<open>e_ident\<close> at 0, \<^verbatim>\<open>e_shoff\<close> at 40,
  \<^verbatim>\<open>e_shnum\<close> at 60, \<^verbatim>\<open>e_shstrndx\<close> at 62), an \<^verbatim>\<open>Elf64_Shdr\<close> is 64 bytes (\<^verbatim>\<open>sh_name\<close> at 0,
  \<^verbatim>\<open>sh_offset\<close> at 24, \<^verbatim>\<open>sh_size\<close> at 32). \<^verbatim>\<open>ELFMAG\<close> is the four bytes 0x7f 'E' 'L' 'F'.
\<close>

record Elf64_Ehdr =
  e_ident :: "byte list"
  e_shoff :: "64 word"
  e_shnum :: "16 word"
  e_shstrndx :: "16 word"

record Elf64_Shdr =
  sh_name :: "32 word"
  sh_offset :: "64 word"
  sh_size :: "64 word"

definition decode_Ehdr :: "byte list \<Rightarrow> Elf64_Ehdr" where
  "decode_Ehdr buf =
     \<lparr>e_ident = slice buf 0 16, e_shoff = u64 buf 40, e_shnum = u16 buf 60,
      e_shstrndx = u16 buf 62\<rparr>"

definition decode_Shdr :: "byte list \<Rightarrow> Elf64_Shdr" where
  "decode_Shdr buf = \<lparr>sh_name = u32 buf 0, sh_offset = u64 buf 24, sh_size = u64 buf 32\<rparr>"

definition decode_Shdrs :: "byte list \<Rightarrow> nat \<Rightarrow> Elf64_Shdr list" where
  "decode_Shdrs buf n = map (\<lambda>i. decode_Shdr (slice buf (64 * i) 64)) [0..<n]"

definition ELFMAG :: "byte list" where
  "ELFMAG = [0x7f, 0x45, 0x4c, 0x46]"

text \<open>
  The loop of lines 71 to 99 over the section headers that are left, in table order. The
  name is \<^verbatim>\<open>strtab + sh_name\<close>, taken without a check against the size of \<^verbatim>\<open>strtab\<close>.
\<close>

fun find_buildinfo :: "env \<Rightarrow> byte list \<Rightarrow> Elf64_Shdr list \<Rightarrow> FILE \<Rightarrow> result \<times> FILE" where
  "find_buildinfo e strtab [] f =
     (Inl (Failure ''No .buildinfo section found in binary\<newline>''), f)"
| "find_buildinfo e strtab (sh # rest) f =
     (case strcmp_eq strtab (unat (sh_name sh)) (bytes_of ''.buildinfo'') of
        None \<Rightarrow> (Inl Undefined, f)
      | Some True \<Rightarrow> print_section e ''.buildinfo'' (sint (sh_offset sh)) (sh_size sh) f
      | Some False \<Rightarrow> find_buildinfo e strtab rest f)"

text \<open>
  Lines 55 to 99, for the section header that \<^verbatim>\<open>shstrtab\<close> points to: allocate \<^verbatim>\<open>sh_size\<close>
  bytes, seek to \<^verbatim>\<open>sh_offset\<close>, read the string table as one item, scan.
\<close>

definition read_strtab :: "env \<Rightarrow> Elf64_Shdr \<Rightarrow> Elf64_Shdr list \<Rightarrow> FILE \<Rightarrow> result \<times> FILE" where
  "read_strtab e shstrtab sections f =
     (if \<not> malloc_ok e (unat (sh_size shstrtab))
      then (Inl (Failure ''Memory allocation failed\<newline>''), f)
      else
        let f1 = fseek e (sint (sh_offset shstrtab)) f;
            ((strtab, n), f2) = fread (unat (sh_size shstrtab)) 1 f1
        in if n \<noteq> 1 then (Inl (Failure ''Failed to read string table\<newline>''), f2)
           else find_buildinfo e strtab sections f2)"

text \<open>
  Line 54, once the section headers are read: \<^verbatim>\<open>&sections[e_shstrndx]\<close> is taken without a
  check against \<^verbatim>\<open>e_shnum\<close>. An index outside the table points into the memory behind the
  table, and the program goes on with the section header that it finds there.
\<close>

definition read_strtab_and_find :: "env \<Rightarrow> Elf64_Ehdr \<Rightarrow> Elf64_Shdr list \<Rightarrow> FILE \<Rightarrow> result \<times> FILE" where
  "read_strtab_and_find e ehdr sections f =
     (if unat (e_shstrndx ehdr) < length sections
      then read_strtab e (sections ! unat (e_shstrndx ehdr)) sections f
      else
        (case out_of_table e (unat (e_shstrndx ehdr)) of
           None \<Rightarrow> (Inl Undefined, f)
         | Some mem \<Rightarrow> read_strtab e (decode_Shdr mem) sections f))"

definition extract_elf_buildinfo :: "env \<Rightarrow> FILE \<Rightarrow> result \<times> FILE" where
  "extract_elf_buildinfo e f =
     (if apple e then (Inl (Failure ''ELF format not supported on this platform\<newline>''), f)
      else
        let f1 = rewind f;
            ((hdr, n), f2) = fread 64 1 f1
        in if n \<noteq> 1 then (Inl (Failure ''Failed to read ELF header\<newline>''), f2)
           else
             let ehdr = decode_Ehdr hdr in
             if take 4 (e_ident ehdr) \<noteq> ELFMAG
             then (Inl (Failure ''Not a valid ELF file\<newline>''), f2)
             else
               let f3 = fseek e (sint (e_shoff ehdr)) f2 in
               if \<not> malloc_ok e (unat (e_shnum ehdr) * 64)
               then (Inl (Failure ''Memory allocation failed\<newline>''), f3)
               else
                 let ((tbl, m), f4) = fread 64 (unat (e_shnum ehdr)) f3
                 in if m \<noteq> unat (e_shnum ehdr)
                    then (Inl (Failure ''Failed to read section headers\<newline>''), f4)
                    else read_strtab_and_find e ehdr (decode_Shdrs tbl (unat (e_shnum ehdr))) f4)"

section \<open>The Mach-O extractor\<close>

text \<open>
  The structures of the system's Mach-O header file, with the fields the program reads and
  their offsets: a \<^verbatim>\<open>mach_header_64\<close> is 32 bytes (\<^verbatim>\<open>magic\<close> at 0, \<^verbatim>\<open>ncmds\<close> at 16), a
  \<^verbatim>\<open>load_command\<close> is 8 bytes (\<^verbatim>\<open>cmd\<close> at 0, \<^verbatim>\<open>cmdsize\<close> at 4), a \<^verbatim>\<open>segment_command_64\<close> is 72
  bytes (\<^verbatim>\<open>nsects\<close> at 64), a \<^verbatim>\<open>section_64\<close> is 80 bytes (\<^verbatim>\<open>sectname\<close>, 16 bytes at 0, \<^verbatim>\<open>size\<close>
  at 40, \<^verbatim>\<open>offset\<close>, 32 bits at 48).
\<close>

record mach_header_64 =
  magic :: "32 word"
  ncmds :: "32 word"

record load_command =
  cmd :: "32 word"
  cmdsize :: "32 word"

record segment_command_64 =
  nsects :: "32 word"

record section_64 =
  sectname :: "byte list"
  size64 :: "64 word"
  offset :: "32 word"

definition decode_mach_header_64 :: "byte list \<Rightarrow> mach_header_64" where
  "decode_mach_header_64 buf = \<lparr>magic = u32 buf 0, ncmds = u32 buf 16\<rparr>"

definition decode_load_command :: "byte list \<Rightarrow> load_command" where
  "decode_load_command buf = \<lparr>cmd = u32 buf 0, cmdsize = u32 buf 4\<rparr>"

definition decode_segment_command_64 :: "byte list \<Rightarrow> segment_command_64" where
  "decode_segment_command_64 buf = \<lparr>nsects = u32 buf 64\<rparr>"

definition decode_section_64 :: "byte list \<Rightarrow> section_64" where
  "decode_section_64 buf = \<lparr>sectname = slice buf 0 16, size64 = u64 buf 40, offset = u32 buf 48\<rparr>"

definition MH_MAGIC_64 :: "32 word" where
  "MH_MAGIC_64 = 0xfeedfacf"

definition MH_CIGAM_64 :: "32 word" where
  "MH_CIGAM_64 = 0xcffaedfe"

definition LC_SEGMENT_64 :: "32 word" where
  "LC_SEGMENT_64 = 0x19"

text \<open>
  Both loops of the Mach-O extractor are \<^verbatim>\<open>for (uint32_t i = 0; i < n; i++) { ... }\<close> with
  a body that changes neither \<open>i\<close> nor \<open>n\<close> and may return from the function. \<open>for_loop\<close> is
  that loop for a body given as a function of the stream: \<open>Some r\<close> when the body returns
  \<open>r\<close>, \<open>None\<close> when the loop is left at its end.
\<close>

function for_loop :: "(FILE \<Rightarrow> 'r option \<times> FILE) \<Rightarrow> nat \<Rightarrow> nat \<Rightarrow> FILE \<Rightarrow> 'r option \<times> FILE" where
  "for_loop body n i f =
     (if i < n then
        (case body f of
           (Some r, f') \<Rightarrow> (Some r, f')
         | (None, f') \<Rightarrow> for_loop body n (i + 1) f')
      else (None, f))"
  by pat_completeness auto
termination
  by (relation "measure (\<lambda>(body, n, i, f). n - i)") auto

text \<open>The body of the loop of lines 147 to 176 over the sections of one segment.\<close>

definition section_step :: "env \<Rightarrow> FILE \<Rightarrow> result option \<times> FILE" where
  "section_step e f =
     (case fread 80 1 f of
        ((buf, k), f1) \<Rightarrow>
          if k \<noteq> 1 then (Some (Inl (Failure ''Failed to read section\<newline>'')), f1)
          else
            let sect = decode_section_64 buf in
            (case strcmp_eq (sectname sect) 0 (bytes_of ''__buildinfo'') of
               None \<Rightarrow> (Some (Inl Undefined), f1)
             | Some True \<Rightarrow>
                 (case print_section e ''__buildinfo'' (uint (offset sect)) (size64 sect) f1 of
                    (r, f2) \<Rightarrow> (Some r, f2))
             | Some False \<Rightarrow> (None, f1)))"

text \<open>
  The body of the loop of lines 128 to 180 over the load commands. \<^verbatim>\<open>pos + lc.cmdsize\<close> is
  an addition of \<^verbatim>\<open>long\<close>.
\<close>

definition load_command_step :: "env \<Rightarrow> FILE \<Rightarrow> result option \<times> FILE" where
  "load_command_step e f =
     (case ftell f of
        (p, f1) \<Rightarrow>
          (case fread 8 1 f1 of
             ((buf, k), f2) \<Rightarrow>
               if k \<noteq> 1 then (Some (Inl (Failure ''Failed to read load command\<newline>'')), f2)
               else
                 let lc = decode_load_command buf;
                     (r, f5) =
                       (if cmd lc = LC_SEGMENT_64 then
                          (case fread 72 1 (fseek e (int p) f2) of
                             ((sbuf, k'), f4) \<Rightarrow>
                               if k' \<noteq> 1
                               then (Some (Inl (Failure ''Failed to read segment command\<newline>'')), f4)
                               else for_loop (section_step e)
                                      (unat (nsects (decode_segment_command_64 sbuf))) 0 f4)
                        else (None, f2))
                 in (case r of
                       Some res \<Rightarrow> (Some res, f5)
                     | None \<Rightarrow>
                         if 2 ^ 63 \<le> int p + uint (cmdsize lc) then (Some (Inl Undefined), f5)
                         else (None, fseek e (int p + uint (cmdsize lc)) f5))))"

definition extract_macho_buildinfo :: "env \<Rightarrow> FILE \<Rightarrow> result \<times> FILE" where
  "extract_macho_buildinfo e f =
     (if \<not> apple e
      then (Inl (Failure ''Mach-O format not supported on this platform\<newline>''), f)
      else
        let f1 = rewind f;
            ((hdr, n), f2) = fread 32 1 f1
        in if n \<noteq> 1 then (Inl (Failure ''Failed to read Mach-O header\<newline>''), f2)
           else
             let mh = decode_mach_header_64 hdr in
             if magic mh \<noteq> MH_MAGIC_64 \<and> magic mh \<noteq> MH_CIGAM_64
             then (Inl (Failure ''Not a valid 64-bit Mach-O file\<newline>''), f2)
             else
               (case for_loop (load_command_step e) (unat (ncmds mh)) 0 f2 of
                  (Some r, f3) \<Rightarrow> (r, f3)
                | (None, f3) \<Rightarrow>
                    (Inl (Failure ''No __buildinfo section found in binary\<newline>''), f3)))"

section \<open>The program\<close>

text \<open>
  \<^verbatim>\<open>main\<close> gets the argument vector and the file system: what \<^verbatim>\<open>fopen(path, "rb")\<close> finds
  under a path, the bytes of a file or the text of the error. It returns the outcome and the
  stream as it is when closed, if one was opened.
\<close>

type_synonym filesystem = "string \<Rightarrow> string + byte list"

definition usage :: "string \<Rightarrow> string" where
  "usage argv0 =
     ''Usage: '' @ argv0 @ '' <binary>\<newline>'' @ ''\<newline>'' @
     ''Extract build metadata from a binary compiled with buildinfo support.\<newline>''"

definition dispatch :: "env \<Rightarrow> 32 word \<Rightarrow> FILE \<Rightarrow> result \<times> FILE" where
  "dispatch e m f =
     (if apple e then
        (if m = MH_MAGIC_64 \<or> m = MH_CIGAM_64 then extract_macho_buildinfo e f
         else (Inl (Failure ''Unknown or unsupported binary format\<newline>''), f))
      else
        (if m = 0x464c457f then extract_elf_buildinfo e f
         else (Inl (Failure ''Unknown or unsupported binary format\<newline>''), f)))"

definition main_file :: "env \<Rightarrow> FILE \<Rightarrow> result \<times> FILE" where
  "main_file e f =
     (case fread 4 1 f of
        ((buf, n), f1) \<Rightarrow>
          if n \<noteq> 1 then (Inl (Failure ''Failed to read file magic\<newline>''), f1)
          else dispatch e (u32 buf 0) f1)"

definition main :: "env \<Rightarrow> string list \<Rightarrow> filesystem \<Rightarrow> result \<times> FILE option" where
  "main e argv fs =
     (if length argv \<noteq> 2
      then (if argv = [] then (Inl Undefined, None) else (Inl (Failure (usage (argv ! 0))), None))
      else
        (case fs (argv ! 1) of
           Inl msg \<Rightarrow> (Inl (Failure (''fopen: '' @ msg @ ''\<newline>'')), None)
         | Inr bs \<Rightarrow> (case main_file e (fopen_rb bs) of (r, f) \<Rightarrow> (r, Some f))))"

section \<open>Files as the two formats describe them\<close>

text \<open>
  What a file holds according to its own headers, read off the bytes without running the
  program: the terms in which the claims speak of an input. \<open>c_string buf off\<close> is the string
  that starts at \<open>off\<close> in \<open>buf\<close>, up to its terminator.
\<close>

definition c_string :: "byte list \<Rightarrow> nat \<Rightarrow> byte list" where
  "c_string buf off = takeWhile (\<lambda>b. b \<noteq> 0) (drop off buf)"

text \<open>
  An ELF file whose fields are in the byte order of the host: its header, the section
  headers the header announces, the section-name string table, and the name of section
  \<open>j\<close> (\<open>None\<close> when no terminator follows the name offset inside the table).
\<close>

definition elf_ehdr :: "byte list \<Rightarrow> Elf64_Ehdr" where
  "elf_ehdr bs = decode_Ehdr (take 64 bs)"

definition elf_shdrs :: "byte list \<Rightarrow> Elf64_Shdr list" where
  "elf_shdrs bs =
     decode_Shdrs (drop (unat (e_shoff (elf_ehdr bs))) bs) (unat (e_shnum (elf_ehdr bs)))"

definition elf_strtab :: "byte list \<Rightarrow> byte list" where
  "elf_strtab bs =
     (let st = elf_shdrs bs ! unat (e_shstrndx (elf_ehdr bs))
      in slice bs (unat (sh_offset st)) (unat (sh_size st)))"

definition elf_name :: "byte list \<Rightarrow> nat \<Rightarrow> byte list option" where
  "elf_name bs j =
     (let off = unat (sh_name (elf_shdrs bs ! j))
      in if 0 \<in> set (drop off (elf_strtab bs)) then Some (c_string (elf_strtab bs) off) else None)"

text \<open>
  The header and the section-header table lie inside the file; the string-table index is
  an index of the table and the string table, not empty, lies inside the file; section
  \<open>i\<close> is the first one named \<^verbatim>\<open>.buildinfo\<close>; a valid file is all of that, with section \<open>i\<close>
  inside the file.
\<close>

definition elf_tables_ok :: "byte list \<Rightarrow> bool" where
  "elf_tables_ok bs \<longleftrightarrow>
     length bs < 2 ^ 63 \<and> 64 \<le> length bs \<and> take 4 bs = ELFMAG \<and>
     unat (e_shoff (elf_ehdr bs)) + 64 * unat (e_shnum (elf_ehdr bs)) \<le> length bs"

definition elf_strtab_ok :: "byte list \<Rightarrow> bool" where
  "elf_strtab_ok bs \<longleftrightarrow>
     unat (e_shstrndx (elf_ehdr bs)) < unat (e_shnum (elf_ehdr bs)) \<and>
     (let st = elf_shdrs bs ! unat (e_shstrndx (elf_ehdr bs))
      in 0 < unat (sh_size st) \<and> unat (sh_offset st) + unat (sh_size st) \<le> length bs)"

definition elf_first_buildinfo :: "byte list \<Rightarrow> nat \<Rightarrow> bool" where
  "elf_first_buildinfo bs i \<longleftrightarrow>
     i < unat (e_shnum (elf_ehdr bs)) \<and>
     (\<forall>j \<in> {0..<i}. elf_name bs j \<noteq> None \<and> elf_name bs j \<noteq> Some (bytes_of ''.buildinfo'')) \<and>
     elf_name bs i = Some (bytes_of ''.buildinfo'')"

definition elf_section_bytes :: "byte list \<Rightarrow> nat \<Rightarrow> byte list" where
  "elf_section_bytes bs i =
     slice bs (unat (sh_offset (elf_shdrs bs ! i))) (unat (sh_size (elf_shdrs bs ! i)))"

definition valid_elf64 :: "byte list \<Rightarrow> nat \<Rightarrow> bool" where
  "valid_elf64 bs i \<longleftrightarrow>
     elf_tables_ok bs \<and> elf_strtab_ok bs \<and> elf_first_buildinfo bs i \<and>
     unat (sh_offset (elf_shdrs bs ! i)) + unat (sh_size (elf_shdrs bs ! i)) \<le> length bs"

text \<open>
  The two 64-bit Mach-O magics as the first four bytes of a file: a file in the byte order of
  the host starts with the first, a file in the other byte order with the second.
\<close>

definition MH_MAGIC_64_bytes :: "byte list" where
  "MH_MAGIC_64_bytes = [0xcf, 0xfa, 0xed, 0xfe]"

definition MH_CIGAM_64_bytes :: "byte list" where
  "MH_CIGAM_64_bytes = [0xfe, 0xed, 0xfa, 0xcf]"

text \<open>
  A Mach-O file in the byte order of the host: load command \<open>k\<close> starts where command
  \<open>k - 1\<close> ends by its \<^verbatim>\<open>cmdsize\<close>, the first one after the header; the sections of a
  segment command follow its 72 bytes, 80 bytes each.
\<close>

fun cmd_pos :: "byte list \<Rightarrow> nat \<Rightarrow> nat" where
  "cmd_pos bs 0 = 32"
| "cmd_pos bs (Suc k) =
     cmd_pos bs k + unat (cmdsize (decode_load_command (slice bs (cmd_pos bs k) 8)))"

definition lc_at :: "byte list \<Rightarrow> nat \<Rightarrow> load_command" where
  "lc_at bs k = decode_load_command (slice bs (cmd_pos bs k) 8)"

definition nsects_at :: "byte list \<Rightarrow> nat \<Rightarrow> nat" where
  "nsects_at bs k = unat (nsects (decode_segment_command_64 (slice bs (cmd_pos bs k) 72)))"

definition sect_at :: "byte list \<Rightarrow> nat \<Rightarrow> nat \<Rightarrow> section_64" where
  "sect_at bs k j = decode_section_64 (slice bs (cmd_pos bs k + 72 + 80 * j) 80)"

definition sect_name :: "section_64 \<Rightarrow> byte list" where
  "sect_name s = c_string (sectname s) 0"

text \<open>
  Command \<open>k\<close> lies inside the file and has no section named \<^verbatim>\<open>__buildinfo\<close>; section \<open>j\<close>
  of command \<open>k\<close> is the first section named \<^verbatim>\<open>__buildinfo\<close> in the order of the load
  commands.
\<close>

definition macho_cmd_without :: "byte list \<Rightarrow> nat \<Rightarrow> bool" where
  "macho_cmd_without bs k \<longleftrightarrow>
     cmd_pos bs k + 8 \<le> length bs \<and> cmd_pos bs (Suc k) \<le> length bs \<and>
     (cmd (lc_at bs k) = LC_SEGMENT_64 \<longrightarrow>
        cmd_pos bs k + 72 + 80 * nsects_at bs k \<le> length bs \<and>
        (\<forall>j \<in> {0..<nsects_at bs k}. sect_name (sect_at bs k j) \<noteq> bytes_of ''__buildinfo''))"

definition macho_first_buildinfo :: "byte list \<Rightarrow> nat \<Rightarrow> nat \<Rightarrow> bool" where
  "macho_first_buildinfo bs k j \<longleftrightarrow>
     length bs < 2 ^ 63 \<and> 32 \<le> length bs \<and> take 4 bs = MH_MAGIC_64_bytes \<and>
     k < unat (ncmds (decode_mach_header_64 (take 32 bs))) \<and>
     (\<forall>i \<in> {0..<k}. macho_cmd_without bs i) \<and>
     cmd (lc_at bs k) = LC_SEGMENT_64 \<and> j < nsects_at bs k \<and>
     cmd_pos bs k + 72 + 80 * Suc j \<le> length bs \<and>
     (\<forall>i \<in> {0..<j}. sect_name (sect_at bs k i) \<noteq> bytes_of ''__buildinfo'') \<and>
     sect_name (sect_at bs k j) = bytes_of ''__buildinfo''"

definition macho_section_bytes :: "byte list \<Rightarrow> nat \<Rightarrow> nat \<Rightarrow> byte list" where
  "macho_section_bytes bs k j =
     slice bs (unat (offset (sect_at bs k j))) (unat (size64 (sect_at bs k j)))"

text \<open>
  A valid file has its first section named \<^verbatim>\<open>__buildinfo\<close> inside the file.
\<close>

definition valid_macho64 :: "byte list \<Rightarrow> nat \<Rightarrow> nat \<Rightarrow> bool" where
  "valid_macho64 bs k j \<longleftrightarrow>
     macho_first_buildinfo bs k j \<and>
     unat (offset (sect_at bs k j)) + unat (size64 (sect_at bs k j)) \<le> length bs"

text \<open>
  The number of calls of one kind in the log of a stream, and a run of the program as a step
  on the file system: closing a stream opened for reading leaves under the path the bytes
  the stream holds.
\<close>

definition n_calls :: "(io_call \<Rightarrow> bool) \<Rightarrow> FILE \<Rightarrow> nat" where
  "n_calls P f = length (filter P (calls f))"

definition run :: "env \<Rightarrow> string list \<Rightarrow> filesystem \<Rightarrow> result \<times> filesystem" where
  "run e argv fs =
     (case main e argv fs of
        (r, None) \<Rightarrow> (r, fs)
      | (r, Some f) \<Rightarrow> (r, fs((argv ! 1) := Inr (content f))))"

section \<open>Concrete files\<close>

text \<open>
  Small files of both formats, built from their records. Fields the program does not read
  are zero, the identification of an ELF file apart. \<open>le_bytes n v\<close> is \<open>v\<close> in \<open>n\<close> bytes,
  least significant first; \<open>be_bytes\<close> is the other byte order.
\<close>

fun le_bytes :: "nat \<Rightarrow> nat \<Rightarrow> byte list" where
  "le_bytes 0 v = []"
| "le_bytes (Suc n) v = of_nat (v mod 256) # le_bytes n (v div 256)"

definition be_bytes :: "nat \<Rightarrow> nat \<Rightarrow> byte list" where
  "be_bytes n v = rev (le_bytes n v)"

definition zeros :: "nat \<Rightarrow> byte list" where
  "zeros n = replicate n 0"

text \<open>
  ELF: a header, the contents, the section headers. The header says in \<^verbatim>\<open>e_ident\<close>, after the
  magic, that the file is of class 2 (64 bits), of data encoding 1 (little-endian) and of
  version 1. \<open>elf_file name0 strndx body\<close> has three sections: one with name offset \<open>name0\<close>
  and no contents, \<^verbatim>\<open>.buildinfo\<close> with contents \<open>body\<close>, and the string table; \<open>strndx\<close> is
  the header's string-table index. \<open>elf_dup\<close> has two sections named \<^verbatim>\<open>.buildinfo\<close>.
  \<open>elf_file_be body\<close> is \<open>elf_file 0 2 body\<close> as a big-endian file: data encoding 2, and
  every field of the header and of the section headers in big-endian byte order.
\<close>

definition mk_Ehdr :: "nat \<Rightarrow> nat \<Rightarrow> nat \<Rightarrow> byte list" where
  "mk_Ehdr shoff shnum shstrndx =
     ELFMAG @ [2, 1, 1] @ zeros 33 @ le_bytes 8 shoff @ zeros 12 @ le_bytes 2 shnum @
     le_bytes 2 shstrndx"

definition mk_Shdr :: "nat \<Rightarrow> nat \<Rightarrow> nat \<Rightarrow> byte list" where
  "mk_Shdr name off sz = le_bytes 4 name @ zeros 20 @ le_bytes 8 off @ le_bytes 8 sz @ zeros 24"

definition shstrtab_demo :: "byte list" where
  "shstrtab_demo = 0 # bytes_of ''.buildinfo'' @ 0 # bytes_of ''.shstrtab'' @ [0]"

definition elf_file :: "nat \<Rightarrow> nat \<Rightarrow> byte list \<Rightarrow> byte list" where
  "elf_file name0 strndx body =
     mk_Ehdr (64 + length body + 22) 3 strndx @ body @ shstrtab_demo @
     mk_Shdr name0 0 0 @ mk_Shdr 1 64 (length body) @ mk_Shdr 12 (64 + length body) 22"

definition elf_dup :: "byte list" where
  "elf_dup =
     mk_Ehdr 92 4 3 @ bytes_of ''one'' @ bytes_of ''two'' @ shstrtab_demo @
     mk_Shdr 0 0 0 @ mk_Shdr 1 64 3 @ mk_Shdr 1 67 3 @ mk_Shdr 12 70 22"

definition mk_Ehdr_be :: "nat \<Rightarrow> nat \<Rightarrow> nat \<Rightarrow> byte list" where
  "mk_Ehdr_be shoff shnum shstrndx =
     ELFMAG @ [2, 2, 1] @ zeros 33 @ be_bytes 8 shoff @ zeros 12 @ be_bytes 2 shnum @
     be_bytes 2 shstrndx"

definition mk_Shdr_be :: "nat \<Rightarrow> nat \<Rightarrow> nat \<Rightarrow> byte list" where
  "mk_Shdr_be name off sz = be_bytes 4 name @ zeros 20 @ be_bytes 8 off @ be_bytes 8 sz @ zeros 24"

definition elf_file_be :: "byte list \<Rightarrow> byte list" where
  "elf_file_be body =
     mk_Ehdr_be (64 + length body + 22) 3 2 @ body @ shstrtab_demo @
     mk_Shdr_be 0 0 0 @ mk_Shdr_be 1 64 (length body) @ mk_Shdr_be 12 (64 + length body) 22"

text \<open>
  Mach-O, in the byte order given by the encoder: \<open>macho_file\<close> has a command that is not a
  segment, then a segment of two sections, the first with a name that fills its field, the
  second named \<^verbatim>\<open>__buildinfo\<close>. \<open>macho_dup one two\<close> has two segments with a section
  \<^verbatim>\<open>__buildinfo\<close> each, the first with contents \<open>one\<close>, the second with contents \<open>two\<close>.
  \<open>macho_zero\<close> announces three commands and holds one of size 0.
\<close>

definition mk_mach_header :: "(nat \<Rightarrow> nat \<Rightarrow> byte list) \<Rightarrow> nat \<Rightarrow> byte list" where
  "mk_mach_header enc n = enc 4 0xfeedfacf @ zeros 12 @ enc 4 n @ zeros 12"

definition mk_load_command :: "(nat \<Rightarrow> nat \<Rightarrow> byte list) \<Rightarrow> nat \<Rightarrow> nat \<Rightarrow> nat \<Rightarrow> byte list" where
  "mk_load_command enc c sz pad = enc 4 c @ enc 4 sz @ zeros pad"

definition mk_segment :: "(nat \<Rightarrow> nat \<Rightarrow> byte list) \<Rightarrow> nat \<Rightarrow> byte list" where
  "mk_segment enc n = enc 4 0x19 @ enc 4 (72 + 80 * n) @ zeros 56 @ enc 4 n @ zeros 4"

definition mk_section :: "(nat \<Rightarrow> nat \<Rightarrow> byte list) \<Rightarrow> string \<Rightarrow> nat \<Rightarrow> nat \<Rightarrow> byte list" where
  "mk_section enc name sz off =
     bytes_of name @ zeros (16 - length name) @ zeros 24 @ enc 8 sz @ enc 4 off @ zeros 28"

definition macho_file :: "(nat \<Rightarrow> nat \<Rightarrow> byte list) \<Rightarrow> byte list" where
  "macho_file enc =
     mk_mach_header enc 2 @ mk_load_command enc 0x1b 24 16 @ mk_segment enc 2 @
     mk_section enc ''__buildinfo_long'' 2 288 @ mk_section enc ''__buildinfo'' 3 290 @
     bytes_of ''xy'' @ bytes_of ''1.2''"

definition macho_dup :: "byte list \<Rightarrow> byte list \<Rightarrow> byte list" where
  "macho_dup one two =
     mk_mach_header le_bytes 2 @
     mk_segment le_bytes 1 @ mk_section le_bytes ''__buildinfo'' (length one) 336 @
     mk_segment le_bytes 1 @ mk_section le_bytes ''__buildinfo'' (length two) (336 + length one) @
     one @ two"

definition macho_zero :: "byte list" where
  "macho_zero = mk_mach_header le_bytes 3 @ mk_load_command le_bytes 0x1b 0 16"

text \<open>
  A build without \<^verbatim>\<open>__APPLE__\<close> and one with it, on a machine where \<^verbatim>\<open>malloc\<close> succeeds, the
  file system accepts every offset that a \<^verbatim>\<open>long\<close> holds, and the memory behind the
  section-header table is fresh, all zero. \<open>stale_heap\<close> is the first of them with other
  memory behind the table: in place of every entry, the section header of the string table
  of \<open>elf_file name0 strndx body\<close> for a \<open>body\<close> of three bytes.
\<close>

definition linux :: env where
  "linux = \<lparr>apple = False, malloc_ok = (\<lambda>n. True), seek_max = 2 ^ 63 - 1,
            out_of_table = (\<lambda>i. Some (zeros 64))\<rparr>"

definition macos :: env where
  "macos = \<lparr>apple = True, malloc_ok = (\<lambda>n. True), seek_max = 2 ^ 63 - 1,
            out_of_table = (\<lambda>i. Some (zeros 64))\<rparr>"

definition stale_heap :: env where
  "stale_heap = linux\<lparr>out_of_table := (\<lambda>i. Some (mk_Shdr 12 67 22))\<rparr>"

section \<open>Lemmas\<close>

lemma content_rewind [simp]: "content (rewind f) = content f"
  by (simp add: rewind_def)

lemma content_fseek [simp]: "content (fseek e off f) = content f"
  by (simp add: fseek_def)

lemma seekable_max: "0 \<le> off \<Longrightarrow> off \<le> int (seek_max e) \<Longrightarrow> seekable e f off"
  by (simp add: seekable_def)

lemma not_seekable_neg: "off < 0 \<Longrightarrow> \<not> seekable e f off"
  by (simp add: seekable_def)

lemma fseek_past_limit:
  "int (seek_max e) < off \<Longrightarrow> int (length (content f)) < off \<Longrightarrow>
   fseek e off f = f\<lparr>calls := calls f @ [Fseek off]\<rparr>"
  by (simp add: fseek_def seekable_def)

lemma fseek_in_file:
  "off \<le> length (content f) \<Longrightarrow>
   fseek e (int off) f = f\<lparr>pos := off, calls := calls f @ [Fseek (int off)]\<rparr>"
  by (simp add: fseek_def seekable_def)

lemma content_ftell [simp]: "content (snd (ftell f)) = content f"
  by (simp add: ftell_def)

lemma content_fread [simp]: "content (snd (fread sz n f)) = content f"
  by (simp add: fread_def Let_def)

lemma fread_in_range:
  assumes "0 < sz" and "pos f + sz * n \<le> length (content f)"
  shows "fread sz n f =
           ((slice (content f) (pos f) (sz * n), n),
            f\<lparr>pos := pos f + sz * n, calls := calls f @ [Fread sz n]\<rparr>)"
proof -
  have "length (take (sz * n) (drop (pos f) (content f))) = sz * n"
    using assms by simp
  then show ?thesis
    using assms by (simp add: fread_def slice_def Let_def)
qed

lemma bytes_of_macho_name:
  "bytes_of ''__buildinfo'' = [0x5f, 0x5f, 0x62, 0x75, 0x69, 0x6c, 0x64, 0x69, 0x6e, 0x66, 0x6f]"
  by (simp add: bytes_of_def)

lemma bytes_of_elf_name:
  "bytes_of ''.buildinfo'' = [0x2e, 0x62, 0x75, 0x69, 0x6c, 0x64, 0x69, 0x6e, 0x66, 0x6f]"
  by (simp add: bytes_of_def)

lemma c_string_step:
  "off < length buf \<Longrightarrow>
   c_string buf off = (if buf ! off = 0 then [] else buf ! off # c_string buf (Suc off))"
  by (simp add: c_string_def Cons_nth_drop_Suc [symmetric])

lemma strcmp_eq_c_string:
  assumes "off + length lit < length buf \<or> 0 \<in> set (drop off buf)" and "0 \<notin> set lit"
  shows "strcmp_eq buf off lit = Some (c_string buf off = lit)"
  using assms
proof (induction lit arbitrary: off)
  case Nil
  then have "off < length buf" by (cases "off < length buf") auto
  then show ?case by (simp add: c_string_step)
next
  case (Cons c cs)
  then have lt: "off < length buf" by (cases "off < length buf") auto
  show ?case
  proof (cases "buf ! off = c")
    case True
    then have "buf ! off \<noteq> 0" using Cons.prems by auto
    moreover have "Suc off + length cs < length buf \<or> 0 \<in> set (drop (Suc off) buf)"
      using Cons.prems(1) lt \<open>buf ! off \<noteq> 0\<close>
      by (auto simp: Cons_nth_drop_Suc [symmetric])
    then have "strcmp_eq buf (Suc off) cs = Some (c_string buf (Suc off) = cs)"
      using Cons by simp
    ultimately show ?thesis using True lt by (simp add: c_string_step)
  next
    case False
    then show ?thesis using lt by (simp add: c_string_step)
  qed
qed

lemma print_section_in_range:
  assumes "malloc_ok e (unat (sz + 1))" and "0 \<le> off" and "0 < unat sz"
    and "nat off + unat sz \<le> length (content f)" and "sz + 1 \<noteq> 0"
  shows "print_section e what off sz f =
           (Inr (takeWhile (\<lambda>b. b \<noteq> 0) (slice (content f) (nat off) (unat sz))),
            f\<lparr>pos := nat off + unat sz, calls := calls f @ [Fseek off, Fread (unat sz) 1]\<rparr>)"
proof -
  let ?f1 = "f\<lparr>pos := nat off, calls := calls f @ [Fseek off]\<rparr>"
  have "nat off \<le> length (content f)" using assms(4) by simp
  then have s: "fseek e off f = ?f1"
    using fseek_in_file [of "nat off" f e] assms(2) by simp
  have r: "fread (unat sz) 1 ?f1 =
      ((slice (content f) (nat off) (unat sz), 1),
       ?f1\<lparr>pos := nat off + unat sz, calls := calls ?f1 @ [Fread (unat sz) 1]\<rparr>)"
    using fread_in_range [of "unat sz" ?f1 1] assms by simp
  have "unat (sz + 1) = unat sz + 1"
    using unatSuc [of sz] assms(5) by (simp add: add.commute)
  then have "\<not> unat (sz + 1) < length (slice (content f) (nat off) (unat sz))"
    by (simp add: slice_def)
  then show ?thesis
    using assms(1) r s by (simp add: print_section_def Let_def)
qed

lemma sint_eq_unat:
  fixes w :: "64 word"
  assumes "unat w < 2 ^ 63"
  shows "sint w = int (unat w)"
proof -
  have "int (unat w) < int (2 ^ 63)" using assms by (simp only: of_nat_less_iff)
  then have "uint w < 2 ^ 63" by (simp only: uint_nat of_nat_power of_nat_numeral)
  moreover have "- (2 ^ 63) \<le> uint w"
  proof -
    have "(0::int) \<le> 2 ^ 63" by simp
    then show ?thesis using uint_ge_0 [of w] by linarith
  qed
  ultimately have "signed_take_bit 63 (uint w) = uint w"
    by (rule signed_take_bit_int_eq_self [rotated])
  then show ?thesis by (simp only: sint_uint uint_nat) simp
qed

lemma slice_slice:
  "a + n \<le> m \<Longrightarrow> slice (slice buf off m) a n = slice buf (off + a) n"
  by (simp add: slice_def drop_take min_def add.commute)

lemma decode_Shdrs_slice:
  "decode_Shdrs (slice buf off (64 * n)) n = decode_Shdrs (drop off buf) n"
proof -
  have "slice (slice buf off (64 * n)) (64 * i) 64 = slice (drop off buf) (64 * i) 64" if "i < n" for i
  proof -
    have "64 * i + 64 \<le> 64 * n" using that by simp
    then show ?thesis by (simp add: slice_slice) (simp add: slice_def add.commute)
  qed
  then show ?thesis by (simp add: decode_Shdrs_def)
qed

lemma length_decode_Shdrs [simp]: "length (decode_Shdrs buf n) = n"
  by (simp add: decode_Shdrs_def)

lemma extract_elf_tables:
  assumes "\<not> apple e" and "elf_tables_ok bs" and "content f = bs"
    and "malloc_ok e (unat (e_shnum (elf_ehdr bs)) * 64)"
  shows "extract_elf_buildinfo e f =
           read_strtab_and_find e (elf_ehdr bs) (elf_shdrs bs)
             (f\<lparr>pos := unat (e_shoff (elf_ehdr bs)) + 64 * unat (e_shnum (elf_ehdr bs)),
                calls := calls f @
                  [Rewind, Fread 64 1, Fseek (int (unat (e_shoff (elf_ehdr bs)))),
                   Fread 64 (unat (e_shnum (elf_ehdr bs)))]\<rparr>)"
proof -
  let ?eh = "elf_ehdr bs"
  let ?off = "unat (e_shoff ?eh)" and ?n = "unat (e_shnum ?eh)"
  from assms have len: "64 \<le> length bs" "length bs < 2 ^ 63" and mag: "take 4 bs = ELFMAG"
    and tbl: "?off + 64 * ?n \<le> length bs" and mal: "malloc_ok e (?n * 64)"
    by (simp_all add: elf_tables_ok_def)
  from tbl have inf: "?off \<le> length bs" by simp
  let ?f1 = "rewind f"
  have r1: "fread 64 1 ?f1 = ((take 64 bs, 1), ?f1\<lparr>pos := 64, calls := calls ?f1 @ [Fread 64 1]\<rparr>)"
    using fread_in_range [of 64 ?f1 1] len assms(3) by (simp add: rewind_def slice_def)
  let ?f2 = "?f1\<lparr>pos := 64, calls := calls ?f1 @ [Fread 64 1]\<rparr>"
  have id: "take 4 (e_ident (decode_Ehdr (take 64 bs))) = ELFMAG"
    using mag by (simp add: decode_Ehdr_def slice_def)
  have "?off < 2 ^ 63" using tbl len by linarith
  then have so: "sint (e_shoff ?eh) = int ?off" by (rule sint_eq_unat)
  let ?f3 = "?f2\<lparr>pos := ?off, calls := calls ?f2 @ [Fseek (int ?off)]\<rparr>"
  have s3: "fseek e (int ?off) ?f2 = ?f3"
    using fseek_in_file [of ?off ?f2 e] inf assms(3) by (simp add: rewind_def)
  have p3: "pos ?f3 = ?off" "content ?f3 = bs" using assms(3) by (simp_all add: rewind_def)
  have r2: "fread 64 ?n ?f3 =
      ((slice bs ?off (64 * ?n), ?n), ?f3\<lparr>pos := ?off + 64 * ?n, calls := calls ?f3 @ [Fread 64 ?n]\<rparr>)"
    using fread_in_range [of 64 ?f3 ?n] tbl p3 by simp
  show ?thesis
    using assms(1) mal r1 id
    apply (simp add: extract_elf_buildinfo_def Let_def)
    using so s3 r2
    apply (simp add: elf_ehdr_def [symmetric] decode_Shdrs_slice elf_shdrs_def [symmetric])
    apply (simp add: rewind_def)
    done
qed

lemma read_strtab_in_range:
  assumes "length bs < 2 ^ 63" and "0 < unat (sh_size st)"
    and "unat (sh_offset st) + unat (sh_size st) \<le> length bs"
    and "malloc_ok e (unat (sh_size st))" and "content f = bs"
  shows "read_strtab e st secs f =
           find_buildinfo e (slice bs (unat (sh_offset st)) (unat (sh_size st))) secs
             (f\<lparr>pos := unat (sh_offset st) + unat (sh_size st),
                calls := calls f @
                  [Fseek (int (unat (sh_offset st))), Fread (unat (sh_size st)) 1]\<rparr>)"
proof -
  let ?off = "unat (sh_offset st)" and ?sz = "unat (sh_size st)"
  have "?off < 2 ^ 63" using assms(1,3) by linarith
  then have so: "sint (sh_offset st) = int ?off" by (rule sint_eq_unat)
  let ?f1 = "f\<lparr>pos := ?off, calls := calls f @ [Fseek (int ?off)]\<rparr>"
  have "?off \<le> length (content f)" using assms(3,5) by simp
  then have s: "fseek e (int ?off) f = ?f1" by (rule fseek_in_file)
  have r: "fread ?sz 1 ?f1 =
      ((slice bs ?off ?sz, 1), ?f1\<lparr>pos := ?off + ?sz, calls := calls ?f1 @ [Fread ?sz 1]\<rparr>)"
    using fread_in_range [of ?sz ?f1 1] assms(2,3,5) by simp
  show ?thesis
    using assms(4) so s r by (simp add: read_strtab_def Let_def)
qed

lemma read_strtab_and_find_in_table:
  assumes "elf_tables_ok bs" and "elf_strtab_ok bs" and "content f = bs"
    and "malloc_ok e (unat (sh_size (elf_shdrs bs ! unat (e_shstrndx (elf_ehdr bs)))))"
  shows "read_strtab_and_find e (elf_ehdr bs) (elf_shdrs bs) f =
           find_buildinfo e (elf_strtab bs) (elf_shdrs bs)
             (let st = elf_shdrs bs ! unat (e_shstrndx (elf_ehdr bs))
              in f\<lparr>pos := unat (sh_offset st) + unat (sh_size st),
                   calls := calls f @
                     [Fseek (int (unat (sh_offset st))), Fread (unat (sh_size st)) 1]\<rparr>)"
proof -
  let ?st = "elf_shdrs bs ! unat (e_shstrndx (elf_ehdr bs))"
  from assms have idx: "unat (e_shstrndx (elf_ehdr bs)) < length (elf_shdrs bs)"
    and sz: "0 < unat (sh_size ?st)"
    and rng: "unat (sh_offset ?st) + unat (sh_size ?st) \<le> length bs"
    by (simp_all add: elf_strtab_ok_def elf_shdrs_def Let_def)
  from assms have len: "length bs < 2 ^ 63" by (simp add: elf_tables_ok_def)
  show ?thesis
    using idx read_strtab_in_range [OF len sz rng assms(4,3), of "elf_shdrs bs"]
    by (simp add: read_strtab_and_find_def Let_def elf_strtab_def)
qed

lemma find_buildinfo_first:
  assumes "\<forall>s \<in> set pre. strcmp_eq strtab (unat (sh_name s)) (bytes_of ''.buildinfo'') = Some False"
    and "strcmp_eq strtab (unat (sh_name sh)) (bytes_of ''.buildinfo'') = Some True"
  shows "find_buildinfo e strtab (pre @ sh # post) f =
           print_section e ''.buildinfo'' (sint (sh_offset sh)) (sh_size sh) f"
  using assms by (induction pre) simp_all

lemma find_buildinfo_outside:
  assumes "\<forall>s \<in> set pre. strcmp_eq strtab (unat (sh_name s)) (bytes_of ''.buildinfo'') = Some False"
    and "length strtab \<le> unat (sh_name sh)"
  shows "find_buildinfo e strtab (pre @ sh # post) f = (Inl Undefined, f)"
proof -
  have "strcmp_eq strtab (unat (sh_name sh)) (bytes_of ''.buildinfo'') = None"
    using assms(2) by (simp add: bytes_of_elf_name)
  then show ?thesis using assms(1) by (induction pre) simp_all
qed

lemma elf_name_strcmp:
  assumes "elf_name bs j = Some nm"
  shows "strcmp_eq (elf_strtab bs) (unat (sh_name (elf_shdrs bs ! j))) (bytes_of ''.buildinfo'') =
           Some (nm = bytes_of ''.buildinfo'')"
proof -
  let ?off = "unat (sh_name (elf_shdrs bs ! j))"
  from assms have t: "0 \<in> set (drop ?off (elf_strtab bs))" and nm: "nm = c_string (elf_strtab bs) ?off"
    by (auto simp: elf_name_def Let_def split: if_splits)
  have "0 \<notin> set (bytes_of ''.buildinfo'')" by (simp add: bytes_of_elf_name)
  then show ?thesis using strcmp_eq_c_string [of ?off "bytes_of ''.buildinfo''" "elf_strtab bs"] t nm
    by simp
qed

lemma elf_scan_first:
  assumes "elf_first_buildinfo bs i"
  shows "find_buildinfo e (elf_strtab bs) (elf_shdrs bs) f =
           print_section e ''.buildinfo'' (sint (sh_offset (elf_shdrs bs ! i)))
             (sh_size (elf_shdrs bs ! i)) f"
proof -
  let ?secs = "elf_shdrs bs"
  from assms have i: "i < length ?secs" by (simp add: elf_first_buildinfo_def elf_shdrs_def)
  then have split: "?secs = take i ?secs @ ?secs ! i # drop (Suc i) ?secs"
    by (simp add: id_take_nth_drop)
  have pre: "\<forall>s \<in> set (take i ?secs).
      strcmp_eq (elf_strtab bs) (unat (sh_name s)) (bytes_of ''.buildinfo'') = Some False"
  proof
    fix s assume "s \<in> set (take i ?secs)"
    then obtain j where j: "j < i" and s: "s = ?secs ! j"
      using i by (auto simp: in_set_conv_nth)
    from assms j have "elf_name bs j \<noteq> None" and ne: "elf_name bs j \<noteq> Some (bytes_of ''.buildinfo'')"
      by (simp_all add: elf_first_buildinfo_def)
    then obtain nm where "elf_name bs j = Some nm" by blast
    with ne have "elf_name bs j = Some nm" and "nm \<noteq> bytes_of ''.buildinfo''" by simp_all
    then show "strcmp_eq (elf_strtab bs) (unat (sh_name s)) (bytes_of ''.buildinfo'') = Some False"
      using elf_name_strcmp [of bs j nm] s by simp
  qed
  from assms have "elf_name bs i = Some (bytes_of ''.buildinfo'')"
    by (simp add: elf_first_buildinfo_def)
  then have hit: "strcmp_eq (elf_strtab bs) (unat (sh_name (?secs ! i))) (bytes_of ''.buildinfo'') = Some True"
    using elf_name_strcmp [of bs i] by simp
  show ?thesis
    using find_buildinfo_first [OF pre hit, of e "drop (Suc i) ?secs" f] split by simp
qed

lemma le_nat_bound: "le_nat xs < 256 ^ length xs"
proof (induction xs)
  case Nil
  show ?case by simp
next
  case (Cons x xs)
  have "unat x < 256" using unsigned_less [of x, where ?'a = nat] by simp
  with Cons show ?case by simp
qed

lemma le_nat_inj:
  assumes "length xs = length ys" and "le_nat xs = le_nat ys"
  shows "xs = ys"
  using assms
proof (induction xs ys rule: list_induct2)
  case Nil
  show ?case by simp
next
  case (Cons x xs y ys)
  have lx: "unat x < 256" using unsigned_less [of x, where ?'a = nat] by simp
  have ly: "unat y < 256" using unsigned_less [of y, where ?'a = nat] by simp
  from Cons.prems have eq: "unat x + 256 * le_nat xs = unat y + 256 * le_nat ys" by simp
  then have "(unat x + 256 * le_nat xs) mod 256 = (unat y + 256 * le_nat ys) mod 256" by simp
  then have "unat x = unat y" using lx ly by simp
  moreover from this eq have "le_nat xs = le_nat ys" by simp
  ultimately show ?case using Cons.IH by (simp add: word_unat_eq_iff)
qed

lemma u32_eq_iff:
  assumes "4 \<le> length bs" and "length m = 4"
  shows "u32 bs 0 = of_nat (le_nat m) \<longleftrightarrow> take 4 bs = m"
proof -
  have l: "length (take 4 bs) = 4" using assms by simp
  have b1: "le_nat (take 4 bs) < 2 ^ 32" using le_nat_bound [of "take 4 bs"] l by simp
  have b2: "le_nat m < 2 ^ 32" using le_nat_bound [of m] assms(2) by simp
  have "u32 bs 0 = of_nat (le_nat m) \<longleftrightarrow> le_nat (take 4 bs) = le_nat m"
    using b1 b2 by (simp add: u32_def slice_def word_of_nat_eq_iff take_bit_nat_eq_self)
  also have "\<dots> \<longleftrightarrow> take 4 bs = m"
    using le_nat_inj [of "take 4 bs" m] l assms(2) by auto
  finally show ?thesis .
qed

lemma magic_ELF: "4 \<le> length bs \<Longrightarrow> u32 bs 0 = 0x464c457f \<longleftrightarrow> take 4 bs = ELFMAG"
  using u32_eq_iff [of bs ELFMAG] by (simp add: ELFMAG_def)

lemma magic_MH: "4 \<le> length bs \<Longrightarrow> u32 bs 0 = MH_MAGIC_64 \<longleftrightarrow> take 4 bs = MH_MAGIC_64_bytes"
  using u32_eq_iff [of bs MH_MAGIC_64_bytes] by (simp add: MH_MAGIC_64_bytes_def MH_MAGIC_64_def)

lemma magic_CIGAM: "4 \<le> length bs \<Longrightarrow> u32 bs 0 = MH_CIGAM_64 \<longleftrightarrow> take 4 bs = MH_CIGAM_64_bytes"
  using u32_eq_iff [of bs MH_CIGAM_64_bytes] by (simp add: MH_CIGAM_64_bytes_def MH_CIGAM_64_def)

lemma main_file_magic:
  assumes "4 \<le> length bs"
  shows "main_file e (fopen_rb bs) =
           dispatch e (u32 bs 0) \<lparr>content = bs, pos = 4, calls = [Fread 4 1]\<rparr>"
proof -
  have "fread 4 1 (fopen_rb bs) = ((take 4 bs, 1), \<lparr>content = bs, pos = 4, calls = [Fread 4 1]\<rparr>)"
    using fread_in_range [of 4 "fopen_rb bs" 1] assms by (simp add: fopen_rb_def slice_def)
  moreover have "u32 (take 4 bs) 0 = u32 bs 0" by (simp add: u32_def slice_def)
  ultimately show ?thesis by (simp add: main_file_def)
qed

lemma for_loop_unfold:
  "for_loop body n i f =
     (if i < n then
        (case body f of
           (Some r, f') \<Rightarrow> (Some r, f')
         | (None, f') \<Rightarrow> for_loop body n (i + 1) f')
      else (None, f))"
  by (rule for_loop.simps)

declare for_loop.simps [simp del]

lemma for_loop_end [simp]: "for_loop body n n f = (None, f)"
  by (subst for_loop_unfold) simp

lemma for_loop_hit:
  "i < n \<Longrightarrow> fst (body f) = Some r \<Longrightarrow> for_loop body n i f = (Some r, snd (body f))"
  by (subst for_loop_unfold) (simp add: split_def)

lemma for_loop_next:
  "i < n \<Longrightarrow> fst (body f) = None \<Longrightarrow> for_loop body n i f = for_loop body n (Suc i) (snd (body f))"
  by (subst for_loop_unfold) (simp add: split_def)

lemma for_loop_steps:
  assumes "\<And>m g. m < k \<Longrightarrow> I m g \<Longrightarrow> fst (body g) = None \<and> I (Suc m) (snd (body g))"
    and "I 0 f" and "i + k \<le> n"
  shows "\<exists>g. I k g \<and> for_loop body n i f = for_loop body n (i + k) g"
  using assms
proof (induction k arbitrary: i f I)
  case 0
  then show ?case by auto
next
  case (Suc k)
  from Suc.prems(1) [of 0 f] Suc.prems(2)
  have b: "fst (body f) = None" and i1: "I (Suc 0) (snd (body f))" by simp_all
  have "i < n" using Suc.prems(3) by simp
  then have u: "for_loop body n i f = for_loop body n (Suc i) (snd (body f))"
    using b by (rule for_loop_next)
  have "\<exists>g. (\<lambda>m. I (Suc m)) k g \<and>
      for_loop body n (Suc i) (snd (body f)) = for_loop body n (Suc i + k) g"
  proof (rule Suc.IH)
    show "(\<lambda>m. I (Suc m)) 0 (snd (body f))" using i1 by simp
    show "Suc i + k \<le> n" using Suc.prems(3) by simp
    show "fst (body g) = None \<and> (\<lambda>m. I (Suc m)) (Suc m) (snd (body g))"
      if "m < k" and "(\<lambda>m. I (Suc m)) m g" for m g
      using Suc.prems(1) [of "Suc m" g] that by simp
  qed
  then show ?case using u by simp
qed

lemma length_sectname:
  "80 \<le> length buf \<Longrightarrow> length (sectname (decode_section_64 buf)) = 16"
  by (simp add: decode_section_64_def slice_def)

lemma section_step_in_range:
  assumes "pos f + 80 \<le> length (content f)"
  shows "section_step e f =
           (let s = decode_section_64 (slice (content f) (pos f) 80);
                f1 = f\<lparr>pos := pos f + 80, calls := calls f @ [Fread 80 1]\<rparr>
            in if sect_name s = bytes_of ''__buildinfo''
               then (Some (fst (print_section e ''__buildinfo'' (uint (offset s)) (size64 s) f1)),
                     snd (print_section e ''__buildinfo'' (uint (offset s)) (size64 s) f1))
               else (None, f1))"
proof -
  let ?buf = "slice (content f) (pos f) 80"
  have r: "fread 80 1 f = ((?buf, 1), f\<lparr>pos := pos f + 80, calls := calls f @ [Fread 80 1]\<rparr>)"
    using fread_in_range [of 80 f 1] assms by simp
  have "length ?buf = 80" using assms by (simp add: slice_def)
  then have l: "length (sectname (decode_section_64 ?buf)) = 16" by (simp add: length_sectname)
  have "strcmp_eq (sectname (decode_section_64 ?buf)) 0 (bytes_of ''__buildinfo'') =
      Some (c_string (sectname (decode_section_64 ?buf)) 0 = bytes_of ''__buildinfo'')"
    by (rule strcmp_eq_c_string) (simp_all add: l bytes_of_macho_name)
  then show ?thesis
    using r by (simp add: section_step_def Let_def sect_name_def split_def)
qed

lemma sections_scan_steps:
  assumes "content f = bs" and "pos f = q" and "q + 80 * k \<le> length bs" and "k \<le> n"
    and "\<forall>j<k. sect_name (decode_section_64 (slice bs (q + 80 * j) 80)) \<noteq> bytes_of ''__buildinfo''"
  shows "\<exists>g. (content g = bs \<and> pos g = q + 80 * k) \<and>
           for_loop (section_step e) n 0 f = for_loop (section_step e) n (0 + k) g"
proof (rule for_loop_steps [where I = "\<lambda>m g. content g = bs \<and> pos g = q + 80 * m"])
  show "content f = bs \<and> pos f = q + 80 * 0" using assms by simp
  show "0 + k \<le> n" using assms by simp
  show "fst (section_step e g) = None \<and>
        content (snd (section_step e g)) = bs \<and> pos (snd (section_step e g)) = q + 80 * Suc m"
    if "m < k" and "content g = bs \<and> pos g = q + 80 * m" for m g
  proof -
    have "pos g + 80 \<le> length (content g)" using that assms(3) by simp
    moreover have "sect_name (decode_section_64 (slice bs (q + 80 * m) 80)) \<noteq> bytes_of ''__buildinfo''"
      using assms(5) that by simp
    ultimately show ?thesis using that by (simp add: section_step_in_range Let_def)
  qed
qed

lemma sections_scan_none:
  assumes "content f = bs" and "pos f = q" and "q + 80 * n \<le> length bs"
    and "\<forall>j<n. sect_name (decode_section_64 (slice bs (q + 80 * j) 80)) \<noteq> bytes_of ''__buildinfo''"
  shows "\<exists>g. content g = bs \<and> for_loop (section_step e) n 0 f = (None, g)"
  using sections_scan_steps [OF assms(1,2,3) le_refl assms(4), of e] by auto

lemma for_loop_invariant:
  assumes "\<And>g. P g \<Longrightarrow> P (snd (body g))" and "P f"
  shows "P (snd (for_loop body n i f))"
  using assms(2)
proof (induction "n - i" arbitrary: i f)
  case 0
  then show ?case by (subst for_loop_unfold) simp
next
  case (Suc m)
  then have lt: "i < n" by simp
  show ?case
  proof (cases "fst (body f)")
    case None
    then have "for_loop body n i f = for_loop body n (Suc i) (snd (body f))"
      using lt by (simp add: for_loop_next)
    moreover have "P (snd (for_loop body n (Suc i) (snd (body f))))"
      using Suc.hyps(1) [of "Suc i" "snd (body f)"] Suc.hyps(2) assms(1) [OF Suc.prems] by simp
    ultimately show ?thesis by simp
  next
    case (Some r)
    then show ?thesis using lt assms(1) Suc.prems by (simp add: for_loop_hit)
  qed
qed

lemma for_loop_count:
  assumes "\<And>g. fst (body g) = None \<Longrightarrow> c (snd (body g)) \<le> c g + K"
    and "\<And>g. fst (body g) \<noteq> None \<Longrightarrow> c (snd (body g)) \<le> c g + K + K'"
  shows "c (snd (for_loop body n i f)) \<le> c f + (n - i) * K + K'"
proof (induction "n - i" arbitrary: i f)
  case 0
  then show ?case by (subst for_loop_unfold) simp
next
  case (Suc m)
  then have lt: "i < n" by simp
  show ?case
  proof (cases "fst (body f)")
    case None
    then have u: "for_loop body n i f = for_loop body n (Suc i) (snd (body f))"
      using lt by (simp add: for_loop_next)
    have "c (snd (for_loop body n (Suc i) (snd (body f)))) \<le>
        c (snd (body f)) + (n - Suc i) * K + K'"
      using Suc.hyps(1) [of "Suc i" "snd (body f)"] Suc.hyps(2) by simp
    moreover have "c (snd (body f)) \<le> c f + K" using assms(1) None by simp
    moreover have "(n - i) * K = (n - Suc i) * K + K"
      using lt by (metis Suc_diff_Suc mult_Suc add.commute)
    ultimately show ?thesis unfolding u by linarith
  next
    case (Some r)
    then have r: "snd (for_loop body n i f) = snd (body f)"
      using lt by (simp add: for_loop_hit)
    have a: "c (snd (body f)) \<le> c f + K + K'" using assms(2) Some by simp
    have b: "K \<le> (n - i) * K" using lt by (cases "n - i") simp_all
    show ?thesis unfolding r using a b by linarith
  qed
qed

lemma n_calls_rewind [simp]:
  "n_calls is_Fread (rewind f) = n_calls is_Fread f" "n_calls is_Ftell (rewind f) = n_calls is_Ftell f"
  by (simp_all add: n_calls_def rewind_def)

lemma n_calls_fseek [simp]:
  "n_calls is_Fread (fseek e off f) = n_calls is_Fread f" "n_calls is_Ftell (fseek e off f) = n_calls is_Ftell f"
  by (simp_all add: n_calls_def fseek_def)

lemma n_calls_ftell [simp]:
  "n_calls is_Fread (snd (ftell f)) = n_calls is_Fread f"
  "n_calls is_Ftell (snd (ftell f)) = Suc (n_calls is_Ftell f)"
  by (simp_all add: n_calls_def ftell_def)

lemma n_calls_fread [simp]:
  "n_calls is_Fread (snd (fread sz n f)) = Suc (n_calls is_Fread f)"
  "n_calls is_Ftell (snd (fread sz n f)) = n_calls is_Ftell f"
  by (simp_all add: n_calls_def fread_def Let_def)

lemma n_calls_print_section:
  "n_calls is_Fread (snd (print_section e what off sz f)) \<le> Suc (n_calls is_Fread f)"
  "n_calls is_Ftell (snd (print_section e what off sz f)) = n_calls is_Ftell f"
  by (simp_all add: print_section_def Let_def split_def)

lemma n_calls_section_step:
  "fst (section_step e f) = None \<Longrightarrow>
     n_calls is_Fread (snd (section_step e f)) \<le> n_calls is_Fread f + 1"
  "n_calls is_Fread (snd (section_step e f)) \<le> n_calls is_Fread f + 1 + 1"
  "n_calls is_Ftell (snd (section_step e f)) = n_calls is_Ftell f"
  using n_calls_print_section [of e "''__buildinfo''"
      "uint (offset (decode_section_64 (fst (fst (fread 80 1 f)))))"
      "size64 (decode_section_64 (fst (fst (fread 80 1 f))))" "snd (fread 80 1 f)"]
  by (auto simp: section_step_def Let_def split_def split: option.splits bool.splits)

lemma n_calls_sections:
  "n_calls is_Fread (snd (for_loop (section_step e) n 0 f)) \<le> n_calls is_Fread f + n + 1"
  "n_calls is_Ftell (snd (for_loop (section_step e) n 0 f)) = n_calls is_Ftell f"
proof -
  have "n_calls is_Fread (snd (for_loop (section_step e) n 0 f)) \<le>
      n_calls is_Fread f + (n - 0) * 1 + 1"
  proof (rule for_loop_count)
    show "n_calls is_Fread (snd (section_step e g)) \<le> n_calls is_Fread g + 1"
      if "fst (section_step e g) = None" for g
      using that by (rule n_calls_section_step(1))
    show "n_calls is_Fread (snd (section_step e g)) \<le> n_calls is_Fread g + 1 + 1" for g
      by (rule n_calls_section_step(2))
  qed
  then show "n_calls is_Fread (snd (for_loop (section_step e) n 0 f)) \<le> n_calls is_Fread f + n + 1"
    by simp
  show "n_calls is_Ftell (snd (for_loop (section_step e) n 0 f)) = n_calls is_Ftell f"
    by (rule for_loop_invariant [where P = "\<lambda>g. n_calls is_Ftell g = n_calls is_Ftell f"])
      (simp_all add: n_calls_section_step)
qed

lemma fst_ftell [simp]: "fst (ftell f) = pos f"
  by (simp add: ftell_def)

lemma n_calls_load_command_step:
  "n_calls is_Fread (snd (load_command_step e f)) \<le> n_calls is_Fread f + (2 ^ 32 + 2)"
  "n_calls is_Ftell (snd (load_command_step e f)) = n_calls is_Ftell f + 1"
proof -
  let ?f2 = "snd (fread 8 1 (snd (ftell f)))"
  let ?f4 = "snd (fread 72 1 (fseek e (int (pos f)) ?f2))"
  let ?n = "unat (nsects (decode_segment_command_64 (fst (fst (fread 72 1 (fseek e (int (pos f)) ?f2))))))"
  have "?n < 2 ^ 32"
    using unsigned_less [of "nsects (decode_segment_command_64
      (fst (fst (fread 72 1 (fseek e (int (pos f)) ?f2)))))", where ?'a = nat] by simp
  then have "n_calls is_Fread (snd (for_loop (section_step e) ?n 0 ?f4)) \<le> n_calls is_Fread f + (2 ^ 32 + 2)"
    using n_calls_sections(1) [of e ?n ?f4] by simp
  then show "n_calls is_Fread (snd (load_command_step e f)) \<le> n_calls is_Fread f + (2 ^ 32 + 2)"
    by (auto simp: load_command_step_def Let_def split_def split: option.splits)
  show "n_calls is_Ftell (snd (load_command_step e f)) = n_calls is_Ftell f + 1"
    using n_calls_sections(2) [of e ?n ?f4]
    by (auto simp: load_command_step_def Let_def split_def split: option.splits)
qed

lemma load_command_step_read:
  assumes "pos f + 8 \<le> length (content f)"
  shows "load_command_step e f =
     (let p = pos f; bs = content f;
          lc = decode_load_command (slice bs p 8);
          f2 = f\<lparr>pos := p + 8, calls := calls f @ [Ftell, Fread 8 1]\<rparr>;
          (r, f5) =
            (if cmd lc = LC_SEGMENT_64 then
               (case fread 72 1 (fseek e (int p) f2) of
                  ((sbuf, k'), f4) \<Rightarrow>
                    if k' \<noteq> 1
                    then (Some (Inl (Failure ''Failed to read segment command\<newline>'')), f4)
                    else for_loop (section_step e)
                           (unat (nsects (decode_segment_command_64 sbuf))) 0 f4)
             else (None, f2))
      in (case r of
            Some res \<Rightarrow> (Some res, f5)
          | None \<Rightarrow>
              if 2 ^ 63 \<le> int p + uint (cmdsize lc) then (Some (Inl Undefined), f5)
              else (None, fseek e (int p + uint (cmdsize lc)) f5)))"
proof -
  let ?f1 = "f\<lparr>calls := calls f @ [Ftell]\<rparr>"
  have "fread 8 1 ?f1 =
      ((slice (content f) (pos f) 8, 1), ?f1\<lparr>pos := pos f + 8, calls := calls ?f1 @ [Fread 8 1]\<rparr>)"
    using fread_in_range [of 8 ?f1 1] assms by simp
  then show ?thesis
    by (simp add: load_command_step_def ftell_def Let_def)
qed

lemma sections_scan_hit:
  assumes "content f = bs" and "pos f = q" and "q + 80 * Suc k \<le> length bs" and "k < n"
    and "\<forall>j<k. sect_name (decode_section_64 (slice bs (q + 80 * j) 80)) \<noteq> bytes_of ''__buildinfo''"
    and "sect_name (decode_section_64 (slice bs (q + 80 * k) 80)) = bytes_of ''__buildinfo''"
  shows "\<exists>g. content g = bs \<and> n_calls is_Ftell g = n_calls is_Ftell f \<and>
           for_loop (section_step e) n 0 f =
             (Some (fst (print_section e ''__buildinfo''
                      (uint (offset (decode_section_64 (slice bs (q + 80 * k) 80))))
                      (size64 (decode_section_64 (slice bs (q + 80 * k) 80))) g)),
              snd (print_section e ''__buildinfo''
                      (uint (offset (decode_section_64 (slice bs (q + 80 * k) 80))))
                      (size64 (decode_section_64 (slice bs (q + 80 * k) 80))) g))"
proof -
  let ?s = "decode_section_64 (slice bs (q + 80 * k) 80)"
  have "q + 80 * k \<le> length bs" using assms(3) by simp
  from sections_scan_steps [OF assms(1,2) this _ assms(5), of n e] assms(4)
  obtain g where g: "content g = bs" "pos g = q + 80 * k"
    and l: "for_loop (section_step e) n 0 f = for_loop (section_step e) n k g"
    by auto
  let ?g1 = "g\<lparr>pos := pos g + 80, calls := calls g @ [Fread 80 1]\<rparr>"
  let ?ps = "print_section e ''__buildinfo'' (uint (offset ?s)) (size64 ?s) ?g1"
  have "pos g + 80 \<le> length (content g)" using g assms(3) by simp
  then have st: "section_step e g = (Some (fst ?ps), snd ?ps)"
    using g assms(6) by (simp add: section_step_in_range Let_def)
  then have h: "for_loop (section_step e) n 0 f = (Some (fst ?ps), snd ?ps)"
    using l assms(4) for_loop_hit [of k n "section_step e" g "fst ?ps"] by simp
  have "n_calls is_Ftell (snd (for_loop (section_step e) n 0 f)) = n_calls is_Ftell f"
    by (rule n_calls_sections(2))
  then have "n_calls is_Ftell ?g1 = n_calls is_Ftell f"
    using h by (simp add: n_calls_print_section(2))
  moreover have "content ?g1 = bs" using g by simp
  ultimately show ?thesis using h by blast
qed

lemma seek_to_next_command:
  assumes "p + unat c \<le> length bs" and "length bs < 2 ^ 63"
  shows "\<not> 2 ^ 63 \<le> int p + uint c"
    and "content g = bs \<Longrightarrow>
         fseek e (int p + uint c) g =
           g\<lparr>pos := p + unat c, calls := calls g @ [Fseek (int p + uint c)]\<rparr>"
proof -
  have eq: "int p + uint c = int (p + unat c)" by (simp only: uint_nat of_nat_add)
  have "p + unat c < 2 ^ 63" using assms by linarith
  then have "int (p + unat c) < int (2 ^ 63)" by (simp only: of_nat_less_iff)
  then have "int p + uint c < 2 ^ 63"
    by (simp only: uint_nat of_nat_add of_nat_power of_nat_numeral)
  then show "\<not> 2 ^ 63 \<le> int p + uint c" by simp
  show "fseek e (int p + uint c) g =
      g\<lparr>pos := p + unat c, calls := calls g @ [Fseek (int p + uint c)]\<rparr>" if "content g = bs"
    using fseek_in_file [of "p + unat c" g e] assms(1) that unfolding eq by simp
qed

lemma load_command_step_skip:
  assumes "content f = bs" and "pos f = p" and "p + 8 \<le> length bs"
    and "cmd (decode_load_command (slice bs p 8)) \<noteq> LC_SEGMENT_64"
    and "p + unat (cmdsize (decode_load_command (slice bs p 8))) \<le> length bs"
    and "length bs < 2 ^ 63"
  shows "fst (load_command_step e f) = None \<and> content (snd (load_command_step e f)) = bs \<and>
         pos (snd (load_command_step e f)) = p + unat (cmdsize (decode_load_command (slice bs p 8)))"
proof -
  let ?c = "cmdsize (decode_load_command (slice bs p 8))"
  let ?f2 = "f\<lparr>pos := p + 8, calls := calls f @ [Ftell, Fread 8 1]\<rparr>"
  have "content ?f2 = bs" using assms(1) by simp
  then have "fseek e (int p + uint ?c) ?f2 =
      ?f2\<lparr>pos := p + unat ?c, calls := calls ?f2 @ [Fseek (int p + uint ?c)]\<rparr>"
    by (rule seek_to_next_command(2) [OF assms(5,6)])
  then show ?thesis
    using assms(1-4) seek_to_next_command(1) [OF assms(5,6)]
    by (simp add: load_command_step_read Let_def)
qed

lemma segment_read:
  assumes "content f = bs" and "p + 72 \<le> length bs"
  shows "fread 72 1 (fseek e (int p) f) =
           ((slice bs p 72, 1), f\<lparr>pos := p + 72, calls := calls f @ [Fseek (int p), Fread 72 1]\<rparr>)"
proof -
  have "p \<le> length (content f)" using assms by simp
  then have "fseek e (int p) f = f\<lparr>pos := p, calls := calls f @ [Fseek (int p)]\<rparr>"
    by (rule fseek_in_file)
  then show ?thesis
    using fread_in_range [of 72 "f\<lparr>pos := p, calls := calls f @ [Fseek (int p)]\<rparr>" 1] assms
    by simp
qed

lemma load_command_step_segment_none:
  assumes "content f = bs" and "pos f = p"
    and "cmd (decode_load_command (slice bs p 8)) = LC_SEGMENT_64"
    and "p + 72 + 80 * unat (nsects (decode_segment_command_64 (slice bs p 72))) \<le> length bs"
    and "\<forall>j<unat (nsects (decode_segment_command_64 (slice bs p 72))).
           sect_name (decode_section_64 (slice bs (p + 72 + 80 * j) 80)) \<noteq> bytes_of ''__buildinfo''"
    and "p + unat (cmdsize (decode_load_command (slice bs p 8))) \<le> length bs"
    and "length bs < 2 ^ 63"
  shows "fst (load_command_step e f) = None \<and> content (snd (load_command_step e f)) = bs \<and>
         pos (snd (load_command_step e f)) = p + unat (cmdsize (decode_load_command (slice bs p 8)))"
proof -
  let ?c = "cmdsize (decode_load_command (slice bs p 8))"
  let ?n = "unat (nsects (decode_segment_command_64 (slice bs p 72)))"
  let ?f2 = "f\<lparr>pos := p + 8, calls := calls f @ [Ftell, Fread 8 1]\<rparr>"
  let ?f4 = "?f2\<lparr>pos := p + 72, calls := calls ?f2 @ [Fseek (int p), Fread 72 1]\<rparr>"
  have r: "fread 72 1 (fseek e (int p) ?f2) = ((slice bs p 72, 1), ?f4)"
    using segment_read [of ?f2 bs p e] assms(1,4) by simp
  obtain g where g: "content g = bs" and l: "for_loop (section_step e) ?n 0 ?f4 = (None, g)"
    using sections_scan_none [of ?f4 bs "p + 72" ?n e] assms(1,4,5) by auto
  have s: "fseek e (int p + uint ?c) g =
      g\<lparr>pos := p + unat ?c, calls := calls g @ [Fseek (int p + uint ?c)]\<rparr>"
    using g by (rule seek_to_next_command(2) [OF assms(6,7)])
  have "pos f + 8 \<le> length (content f)" using assms(1,2,4) by simp
  then show ?thesis
    using assms(1-3) seek_to_next_command(1) [OF assms(6,7)] r l g s
    by (simp add: load_command_step_read Let_def)
qed

lemma load_command_step_segment_hit:
  assumes "content f = bs" and "pos f = p"
    and "cmd (decode_load_command (slice bs p 8)) = LC_SEGMENT_64"
    and "j < unat (nsects (decode_segment_command_64 (slice bs p 72)))"
    and "p + 72 + 80 * Suc j \<le> length bs"
    and "\<forall>i<j. sect_name (decode_section_64 (slice bs (p + 72 + 80 * i) 80)) \<noteq> bytes_of ''__buildinfo''"
    and "sect_name (decode_section_64 (slice bs (p + 72 + 80 * j) 80)) = bytes_of ''__buildinfo''"
  shows "\<exists>g. content g = bs \<and> n_calls is_Ftell g = Suc (n_calls is_Ftell f) \<and>
           load_command_step e f =
             (Some (fst (print_section e ''__buildinfo''
                      (uint (offset (decode_section_64 (slice bs (p + 72 + 80 * j) 80))))
                      (size64 (decode_section_64 (slice bs (p + 72 + 80 * j) 80))) g)),
              snd (print_section e ''__buildinfo''
                      (uint (offset (decode_section_64 (slice bs (p + 72 + 80 * j) 80))))
                      (size64 (decode_section_64 (slice bs (p + 72 + 80 * j) 80))) g))"
proof -
  let ?n = "unat (nsects (decode_segment_command_64 (slice bs p 72)))"
  let ?s = "decode_section_64 (slice bs (p + 72 + 80 * j) 80)"
  let ?f2 = "f\<lparr>pos := p + 8, calls := calls f @ [Ftell, Fread 8 1]\<rparr>"
  let ?f4 = "?f2\<lparr>pos := p + 72, calls := calls ?f2 @ [Fseek (int p), Fread 72 1]\<rparr>"
  have r: "fread 72 1 (fseek e (int p) ?f2) = ((slice bs p 72, 1), ?f4)"
    using segment_read [of ?f2 bs p e] assms(1,5) by simp
  have c4: "n_calls is_Ftell ?f4 = Suc (n_calls is_Ftell f)" by (simp add: n_calls_def)
  obtain g where g: "content g = bs" "n_calls is_Ftell g = n_calls is_Ftell ?f4"
    and l: "for_loop (section_step e) ?n 0 ?f4 =
      (Some (fst (print_section e ''__buildinfo'' (uint (offset ?s)) (size64 ?s) g)),
       snd (print_section e ''__buildinfo'' (uint (offset ?s)) (size64 ?s) g))"
    using sections_scan_hit [of ?f4 bs "p + 72" j ?n e] assms(1,4-7) by auto
  have "pos f + 8 \<le> length (content f)" using assms(1,2,5) by simp
  then have "load_command_step e f =
      (Some (fst (print_section e ''__buildinfo'' (uint (offset ?s)) (size64 ?s) g)),
       snd (print_section e ''__buildinfo'' (uint (offset ?s)) (size64 ?s) g))"
    using assms(1-3) r l by (simp add: load_command_step_read Let_def)
  then show ?thesis using g c4 by auto
qed

lemma load_command_step_without:
  assumes "macho_cmd_without bs k" and "length bs < 2 ^ 63"
    and "content f = bs \<and> pos f = cmd_pos bs k"
  shows "fst (load_command_step e f) = None \<and>
         content (snd (load_command_step e f)) = bs \<and>
         pos (snd (load_command_step e f)) = cmd_pos bs (Suc k)"
proof -
  let ?p = "cmd_pos bs k"
  from assms(1) have in8: "?p + 8 \<le> length bs" and nxt: "cmd_pos bs (Suc k) \<le> length bs"
    by (simp_all add: macho_cmd_without_def)
  from nxt have lt: "?p + unat (cmdsize (decode_load_command (slice bs ?p 8))) \<le> length bs"
    by simp
  show ?thesis
  proof (cases "cmd (decode_load_command (slice bs ?p 8)) = LC_SEGMENT_64")
    case True
    with assms(1) have "?p + 72 + 80 * unat (nsects (decode_segment_command_64 (slice bs ?p 72))) \<le> length bs"
      and "\<forall>j<unat (nsects (decode_segment_command_64 (slice bs ?p 72))).
             sect_name (decode_section_64 (slice bs (?p + 72 + 80 * j) 80)) \<noteq> bytes_of ''__buildinfo''"
      by (simp_all add: macho_cmd_without_def lc_at_def nsects_at_def sect_at_def)
    then show ?thesis
      using load_command_step_segment_none [of f bs ?p e] True lt assms(2,3) by simp
  next
    case False
    then show ?thesis
      using load_command_step_skip [of f bs ?p e] in8 lt assms(2,3) by simp
  qed
qed

lemma extract_macho_first:
  assumes "apple e" and "macho_first_buildinfo bs k j" and "content f = bs"
  shows "\<exists>g. content g = bs \<and> n_calls is_Ftell g = n_calls is_Ftell f + Suc k \<and>
           extract_macho_buildinfo e f =
             print_section e ''__buildinfo'' (uint (offset (sect_at bs k j)))
               (size64 (sect_at bs k j)) g"
proof -
  let ?n = "unat (ncmds (decode_mach_header_64 (take 32 bs)))"
  let ?c = "n_calls is_Ftell f"
  from assms(2) have len: "length bs < 2 ^ 63" "32 \<le> length bs"
    and mag: "take 4 bs = MH_MAGIC_64_bytes" and k: "k < ?n"
    and pre: "\<forall>i<k. macho_cmd_without bs i"
    and seg: "cmd (lc_at bs k) = LC_SEGMENT_64" "j < nsects_at bs k"
      "cmd_pos bs k + 72 + 80 * Suc j \<le> length bs"
      "\<forall>i<j. sect_name (sect_at bs k i) \<noteq> bytes_of ''__buildinfo''"
      "sect_name (sect_at bs k j) = bytes_of ''__buildinfo''"
    by (simp_all add: macho_first_buildinfo_def)
  let ?f2 = "(rewind f)\<lparr>pos := 32, calls := calls (rewind f) @ [Fread 32 1]\<rparr>"
  have r: "fread 32 1 (rewind f) = ((take 32 bs, 1), ?f2)"
    using fread_in_range [of 32 "rewind f" 1] len assms(3) by (simp add: rewind_def slice_def)
  have "u32 (take 32 bs) 0 = u32 bs 0" by (simp add: u32_def slice_def)
  then have m: "magic (decode_mach_header_64 (take 32 bs)) = MH_MAGIC_64"
    using mag len magic_MH [of bs] by (simp add: decode_mach_header_64_def)
  have "\<exists>g. (content g = bs \<and> pos g = cmd_pos bs k \<and> n_calls is_Ftell g = ?c + k) \<and>
      for_loop (load_command_step e) ?n 0 ?f2 = for_loop (load_command_step e) ?n (0 + k) g"
  proof (rule for_loop_steps
      [where I = "\<lambda>m g. content g = bs \<and> pos g = cmd_pos bs m \<and> n_calls is_Ftell g = ?c + m"])
    show "content ?f2 = bs \<and> pos ?f2 = cmd_pos bs 0 \<and> n_calls is_Ftell ?f2 = ?c + 0"
      using assms(3) by (simp add: rewind_def n_calls_def)
    show "0 + k \<le> ?n" using k by simp
    show "fst (load_command_step e g) = None \<and>
          content (snd (load_command_step e g)) = bs \<and>
          pos (snd (load_command_step e g)) = cmd_pos bs (Suc m) \<and>
          n_calls is_Ftell (snd (load_command_step e g)) = ?c + Suc m"
      if "m < k" and "content g = bs \<and> pos g = cmd_pos bs m \<and> n_calls is_Ftell g = ?c + m" for m g
      using load_command_step_without [of bs m g e] pre that len
      by (simp add: n_calls_load_command_step)
  qed
  then obtain g where g: "content g = bs" "pos g = cmd_pos bs k" "n_calls is_Ftell g = ?c + k"
    and l: "for_loop (load_command_step e) ?n 0 ?f2 = for_loop (load_command_step e) ?n k g"
    by auto
  obtain g' where g': "content g' = bs" "n_calls is_Ftell g' = Suc (n_calls is_Ftell g)"
    and h: "load_command_step e g =
      (Some (fst (print_section e ''__buildinfo'' (uint (offset (sect_at bs k j)))
                (size64 (sect_at bs k j)) g')),
       snd (print_section e ''__buildinfo'' (uint (offset (sect_at bs k j)))
                (size64 (sect_at bs k j)) g'))"
    using load_command_step_segment_hit [of g bs "cmd_pos bs k" j e] g(1,2) seg
    by (auto simp: lc_at_def nsects_at_def sect_at_def)
  have "for_loop (load_command_step e) ?n k g =
      (Some (fst (print_section e ''__buildinfo'' (uint (offset (sect_at bs k j)))
                (size64 (sect_at bs k j)) g')),
       snd (print_section e ''__buildinfo'' (uint (offset (sect_at bs k j)))
                (size64 (sect_at bs k j)) g'))"
    using k h for_loop_hit [of k ?n "load_command_step e" g] by simp
  then have "extract_macho_buildinfo e f =
      print_section e ''__buildinfo'' (uint (offset (sect_at bs k j))) (size64 (sect_at bs k j)) g'"
    using assms(1) r m l by (simp add: extract_macho_buildinfo_def Let_def)
  then show ?thesis using g' g(3) by auto
qed

lemma le_bytes_numeral [simp]:
  "le_bytes (numeral k) v = of_nat (v mod 256) # le_bytes (pred_numeral k) (v div 256)"
  by (simp only: numeral_eq_Suc [of k] le_bytes.simps)

lemma zeros_numeral [simp]: "zeros (numeral k) = 0 # zeros (pred_numeral k)"
  by (simp add: zeros_def numeral_eq_Suc)

lemma zeros_simps [simp]: "zeros 0 = []" "zeros (Suc n) = 0 # zeros n"
  by (simp_all add: zeros_def)

lemmas fixture_defs = elf_file_def elf_dup_def mk_Ehdr_def mk_Shdr_def shstrtab_demo_def
  mk_mach_header_def mk_load_command_def mk_segment_def mk_section_def macho_file_def macho_dup_def
  macho_zero_def be_bytes_def ELFMAG_def bytes_of_def linux_def macos_def
  mk_Ehdr_be_def mk_Shdr_be_def elf_file_be_def stale_heap_def

lemmas decode_defs = decode_Ehdr_def decode_Shdr_def decode_Shdrs_def decode_mach_header_64_def
  decode_load_command_def decode_segment_command_64_def decode_section_64_def
  u16_def u32_def u64_def slice_def MH_MAGIC_64_def MH_CIGAM_64_def LC_SEGMENT_64_def
  upt_conv_Cons

lemmas model_defs = main_file_def dispatch_def extract_elf_buildinfo_def read_strtab_and_find_def
  read_strtab_def print_section_def extract_macho_buildinfo_def load_command_step_def
  section_step_def fopen_rb_def rewind_def fseek_def seekable_max not_seekable_neg ftell_def
  fread_def for_loop_unfold Let_def

subsection \<open>Further lemmas for the claims\<close>

lemma strcmp_eq_in_field:
  assumes "off + length lit < length buf" and "0 \<notin> set lit"
  shows "strcmp_eq buf off lit = Some (take (Suc (length lit)) (drop off buf) = lit @ [0])"
  using assms
proof (induction lit arbitrary: off)
  case Nil
  then have "drop off buf = buf ! off # drop (Suc off) buf"
    by (simp add: Cons_nth_drop_Suc)
  then show ?case using Nil by simp
next
  case (Cons c cs)
  then have d: "drop off buf = buf ! off # drop (Suc off) buf"
    by (simp add: Cons_nth_drop_Suc)
  have "strcmp_eq buf (Suc off) cs = Some (take (Suc (length cs)) (drop (Suc off) buf) = cs @ [0])"
    using Cons by simp
  then show ?case using Cons.prems d by auto
qed

lemma main_file_elf_magic:
  assumes "4 \<le> length bs" and "take 4 bs = ELFMAG"
  shows "main_file e (fopen_rb bs) =
           (if apple e
            then (Inl (Failure ''Unknown or unsupported binary format\<newline>''),
                  \<lparr>content = bs, pos = 4, calls = [Fread 4 1]\<rparr>)
            else extract_elf_buildinfo e \<lparr>content = bs, pos = 4, calls = [Fread 4 1]\<rparr>)"
proof -
  have "u32 bs 0 = 0x464c457f" using assms by (simp add: magic_ELF)
  then show ?thesis
    using assms(1) by (simp add: main_file_magic dispatch_def MH_MAGIC_64_def MH_CIGAM_64_def)
qed

lemma main_file_macho_magic:
  assumes "4 \<le> length bs" and "take 4 bs = MH_MAGIC_64_bytes \<or> take 4 bs = MH_CIGAM_64_bytes"
  shows "main_file e (fopen_rb bs) =
           (if apple e
            then extract_macho_buildinfo e \<lparr>content = bs, pos = 4, calls = [Fread 4 1]\<rparr>
            else (Inl (Failure ''Unknown or unsupported binary format\<newline>''),
                  \<lparr>content = bs, pos = 4, calls = [Fread 4 1]\<rparr>))"
proof -
  have m: "u32 bs 0 = MH_MAGIC_64 \<or> u32 bs 0 = MH_CIGAM_64"
    using assms by (simp add: magic_MH magic_CIGAM)
  then have "u32 bs 0 \<noteq> 0x464c457f" by (auto simp: MH_MAGIC_64_def MH_CIGAM_64_def)
  then show ?thesis
    using assms(1) m by (simp add: main_file_magic dispatch_def)
qed

lemma n_calls_command_loop:
  "n_calls is_Ftell (snd (for_loop (load_command_step e) n i f)) \<le> n_calls is_Ftell f + (n - i)"
  "n_calls is_Fread (snd (for_loop (load_command_step e) n i f)) \<le>
     n_calls is_Fread f + (n - i) * (2 ^ 32 + 2)"
proof -
  have "n_calls is_Ftell (snd (for_loop (load_command_step e) n i f)) \<le>
      n_calls is_Ftell f + (n - i) * 1 + 0"
    by (rule for_loop_count) (simp_all add: n_calls_load_command_step)
  then show "n_calls is_Ftell (snd (for_loop (load_command_step e) n i f)) \<le>
      n_calls is_Ftell f + (n - i)"
    by simp
  have "n_calls is_Fread (snd (for_loop (load_command_step e) n i f)) \<le>
      n_calls is_Fread f + (n - i) * (2 ^ 32 + 2) + 0"
  proof (rule for_loop_count)
    show "n_calls is_Fread (snd (load_command_step e g)) \<le> n_calls is_Fread g + (2 ^ 32 + 2)" for g
      by (rule n_calls_load_command_step(1))
    then show "n_calls is_Fread (snd (load_command_step e g)) \<le> n_calls is_Fread g + (2 ^ 32 + 2) + 0" for g
      by simp
  qed
  then show "n_calls is_Fread (snd (for_loop (load_command_step e) n i f)) \<le>
      n_calls is_Fread f + (n - i) * (2 ^ 32 + 2)"
    by simp
qed

lemma load_command_step_cmdsize_0:
  assumes "fst (load_command_step e f) = None"
    and "cmdsize (decode_load_command (slice (content f) (pos f) 8)) = 0"
  shows "pos (snd (load_command_step e f)) = pos f"
proof -
  have b: "fst (fst (fread 8 (Suc 0) (snd (ftell f)))) = slice (content f) (pos f) 8"
    by (simp add: fread_def ftell_def slice_def)
  have "snd (fst (fread 8 (Suc 0) (snd (ftell f)))) = Suc 0"
    using assms(1) by (auto simp: load_command_step_def Let_def split_def split: if_splits)
  then have "pos f \<le> length (content f)"
    by (cases "pos f \<le> length (content f)") (simp_all add: fread_def ftell_def Let_def)
  then have s: "fseek e (int (pos f)) g = g\<lparr>pos := pos f, calls := calls g @ [Fseek (int (pos f))]\<rparr>"
    if "content g = content f" for g
    using fseek_in_file [of "pos f" g e] that by simp
  have c: "content (snd (for_loop (section_step e) n 0 g)) = content g" for n g
    by (rule for_loop_invariant [where P = "\<lambda>h. content h = content g"])
      (simp_all add: section_step_def Let_def split_def print_section_def
        split: option.splits bool.splits)
  show ?thesis
    using assms(1) assms(2) [folded b]
    by (auto simp: load_command_step_def Let_def split_def s c
        split: option.splits if_splits)
qed

lemma content_print_section [simp]: "content (snd (print_section e what off sz f)) = content f"
  by (simp add: print_section_def Let_def split_def)

lemma content_find_buildinfo [simp]: "content (snd (find_buildinfo e strtab secs f)) = content f"
  by (induction secs) (auto split: option.splits bool.splits)

lemma content_read_strtab [simp]: "content (snd (read_strtab e st secs f)) = content f"
  by (simp add: read_strtab_def Let_def split_def)

lemma content_read_strtab_and_find [simp]:
  "content (snd (read_strtab_and_find e ehdr secs f)) = content f"
  by (simp add: read_strtab_and_find_def split: option.splits)

lemma content_extract_elf_buildinfo [simp]:
  "content (snd (extract_elf_buildinfo e f)) = content f"
  by (simp add: extract_elf_buildinfo_def Let_def split_def)

lemma content_section_step [simp]: "content (snd (section_step e f)) = content f"
  by (simp add: section_step_def Let_def split_def split: option.splits bool.splits)

lemma content_sections [simp]:
  "content (snd (for_loop (section_step e) n i f)) = content f"
  by (rule for_loop_invariant [where P = "\<lambda>g. content g = content f"]) simp_all

lemma content_load_command_step [simp]: "content (snd (load_command_step e f)) = content f"
  by (simp add: load_command_step_def Let_def split_def split: option.splits)

lemma content_commands [simp]:
  "content (snd (for_loop (load_command_step e) n i f)) = content f"
  by (rule for_loop_invariant [where P = "\<lambda>g. content g = content f"]) simp_all

lemma content_extract_macho_buildinfo [simp]:
  "content (snd (extract_macho_buildinfo e f)) = content f"
  by (simp add: extract_macho_buildinfo_def Let_def split_def split: option.splits)

lemma content_main_file [simp]: "content (snd (main_file e f)) = content f"
  by (simp add: main_file_def dispatch_def split_def)


lemma cmd_pos_numeral [simp]: "cmd_pos bs (numeral n) = cmd_pos bs (Suc (pred_numeral n))"
  by (simp only: numeral_eq_Suc)

lemmas view_defs = macho_first_buildinfo_def macho_cmd_without_def lc_at_def nsects_at_def
  sect_at_def sect_name_def c_string_def elf_first_buildinfo_def elf_name_def elf_strtab_def
  elf_shdrs_def elf_ehdr_def elf_tables_ok_def elf_strtab_ok_def valid_elf64_def valid_macho64_def
  elf_section_bytes_def macho_section_bytes_def MH_MAGIC_64_bytes_def MH_CIGAM_64_bytes_def

lemma succ_nonzero:
  fixes w :: "64 word"
  assumes "unat w < 2 ^ 63"
  shows "w + 1 \<noteq> 0"
proof
  assume "w + 1 = 0"
  then have "w = - 1" by (simp add: eq_neg_iff_add_eq_0)
  then have "unat w = 2 ^ 64 - 1" by (simp add: unsigned_minus_1_eq_mask mask_eq_exp_minus_1)
  then show False using assms by simp
qed

lemma extract_elf_valid:
  assumes "\<not> apple e" and "valid_elf64 bs i" and "elf_section_bytes bs i \<noteq> []"
    and "content f = bs" and "\<forall>n \<le> Suc (length bs). malloc_ok e n"
  shows "extract_elf_buildinfo e f =
           (Inr (takeWhile (\<lambda>b. b \<noteq> 0) (elf_section_bytes bs i)),
            f\<lparr>pos := unat (sh_offset (elf_shdrs bs ! i)) + unat (sh_size (elf_shdrs bs ! i)),
              calls := calls f @
                [Rewind, Fread 64 1, Fseek (int (unat (e_shoff (elf_ehdr bs)))),
                 Fread 64 (unat (e_shnum (elf_ehdr bs))),
                 Fseek (int (unat (sh_offset (elf_shdrs bs ! unat (e_shstrndx (elf_ehdr bs)))))),
                 Fread (unat (sh_size (elf_shdrs bs ! unat (e_shstrndx (elf_ehdr bs))))) 1,
                 Fseek (int (unat (sh_offset (elf_shdrs bs ! i)))),
                 Fread (unat (sh_size (elf_shdrs bs ! i))) 1]\<rparr>)"
proof -
  let ?s = "elf_shdrs bs ! i"
  let ?st = "elf_shdrs bs ! unat (e_shstrndx (elf_ehdr bs))"
  from assms(2) have t: "elf_tables_ok bs" and st: "elf_strtab_ok bs"
    and fi: "elf_first_buildinfo bs i"
    and rng: "unat (sh_offset ?s) + unat (sh_size ?s) \<le> length bs"
    by (simp_all add: valid_elf64_def)
  from t have len: "length bs < 2 ^ 63"
    and tbl: "unat (e_shoff (elf_ehdr bs)) + 64 * unat (e_shnum (elf_ehdr bs)) \<le> length bs"
    by (simp_all add: elf_tables_ok_def)
  from st have "unat (sh_offset ?st) + unat (sh_size ?st) \<le> length bs"
    by (simp add: elf_strtab_ok_def Let_def)
  then have m2: "malloc_ok e (unat (sh_size ?st))" using assms(5) by simp
  have m1: "malloc_ok e (unat (e_shnum (elf_ehdr bs)) * 64)" using tbl assms(5) by simp
  have "unat (sh_size ?s) < 2 ^ 63" using len rng by linarith
  then have nz: "sh_size ?s + 1 \<noteq> 0" by (rule succ_nonzero)
  then have "unat (sh_size ?s + 1) = unat (sh_size ?s) + 1"
    using unatSuc [of "sh_size ?s"] by (simp add: add.commute)
  then have m3: "malloc_ok e (unat (sh_size ?s + 1))" using rng assms(5) by simp
  have "unat (sh_offset ?s) < 2 ^ 63" using len rng by linarith
  then have so: "sint (sh_offset ?s) = int (unat (sh_offset ?s))" by (rule sint_eq_unat)
  have pos: "0 < unat (sh_size ?s)"
    using assms(3) by (cases "unat (sh_size ?s) = 0") (simp_all add: elf_section_bytes_def slice_def)
  let ?f4 = "f\<lparr>pos := unat (e_shoff (elf_ehdr bs)) + 64 * unat (e_shnum (elf_ehdr bs)),
      calls := calls f @ [Rewind, Fread 64 1, Fseek (int (unat (e_shoff (elf_ehdr bs)))),
        Fread 64 (unat (e_shnum (elf_ehdr bs)))]\<rparr>"
  let ?g = "?f4\<lparr>pos := unat (sh_offset ?st) + unat (sh_size ?st),
      calls := calls ?f4 @ [Fseek (int (unat (sh_offset ?st))), Fread (unat (sh_size ?st)) 1]\<rparr>"
  have c4: "content ?f4 = bs" and cg: "content ?g = bs" using assms(4) by simp_all
  have "extract_elf_buildinfo e f = read_strtab_and_find e (elf_ehdr bs) (elf_shdrs bs) ?f4"
    using assms(1) t assms(4) m1 by (rule extract_elf_tables)
  also have "\<dots> = find_buildinfo e (elf_strtab bs) (elf_shdrs bs) ?g"
    using read_strtab_and_find_in_table [OF t st c4 m2] by (simp add: Let_def)
  also have "\<dots> = print_section e ''.buildinfo'' (int (unat (sh_offset ?s))) (sh_size ?s) ?g"
    using elf_scan_first [OF fi, of e ?g] so by simp
  also have "\<dots> =
      (Inr (takeWhile (\<lambda>b. b \<noteq> 0) (slice (content ?g) (nat (int (unat (sh_offset ?s)))) (unat (sh_size ?s)))),
       ?g\<lparr>pos := nat (int (unat (sh_offset ?s))) + unat (sh_size ?s),
          calls := calls ?g @ [Fseek (int (unat (sh_offset ?s))), Fread (unat (sh_size ?s)) 1]\<rparr>)"
    using m3 pos rng cg nz by (intro print_section_in_range) simp_all
  finally show ?thesis using assms(4) by (simp add: elf_section_bytes_def)
qed

lemma extract_macho_valid:
  assumes "apple e" and "valid_macho64 bs k j" and "macho_section_bytes bs k j \<noteq> []"
    and "content f = bs" and "malloc_ok e (unat (size64 (sect_at bs k j) + 1))"
  shows "fst (extract_macho_buildinfo e f) =
           Inr (takeWhile (\<lambda>b. b \<noteq> 0) (macho_section_bytes bs k j))"
    and "n_calls is_Ftell (snd (extract_macho_buildinfo e f)) = n_calls is_Ftell f + Suc k"
    and "pos (snd (extract_macho_buildinfo e f)) =
           unat (offset (sect_at bs k j)) + unat (size64 (sect_at bs k j))"
proof -
  let ?s = "sect_at bs k j"
  from assms(2) have fi: "macho_first_buildinfo bs k j"
    and rng: "unat (offset ?s) + unat (size64 ?s) \<le> length bs"
    by (simp_all add: valid_macho64_def)
  from fi have len: "length bs < 2 ^ 63" by (simp add: macho_first_buildinfo_def)
  obtain g where g: "content g = bs" "n_calls is_Ftell g = n_calls is_Ftell f + Suc k"
    and x: "extract_macho_buildinfo e f =
      print_section e ''__buildinfo'' (uint (offset ?s)) (size64 ?s) g"
    using extract_macho_first [OF assms(1) fi assms(4)] by auto
  have "unat (size64 ?s) < 2 ^ 63" using len rng by linarith
  then have nz: "size64 ?s + 1 \<noteq> 0" by (rule succ_nonzero)
  have pos: "0 < unat (size64 ?s)"
    using assms(3) by (cases "unat (size64 ?s) = 0") (simp_all add: macho_section_bytes_def slice_def)
  have "print_section e ''__buildinfo'' (uint (offset ?s)) (size64 ?s) g =
      (Inr (takeWhile (\<lambda>b. b \<noteq> 0) (slice (content g) (nat (uint (offset ?s))) (unat (size64 ?s)))),
       g\<lparr>pos := nat (uint (offset ?s)) + unat (size64 ?s),
         calls := calls g @ [Fseek (uint (offset ?s)), Fread (unat (size64 ?s)) 1]\<rparr>)"
    using assms(5) pos rng g(1) nz by (intro print_section_in_range) simp_all
  then have y: "extract_macho_buildinfo e f =
      (Inr (takeWhile (\<lambda>b. b \<noteq> 0) (macho_section_bytes bs k j)),
       g\<lparr>pos := unat (offset ?s) + unat (size64 ?s),
         calls := calls g @ [Fseek (uint (offset ?s)), Fread (unat (size64 ?s)) 1]\<rparr>)"
    using x g(1) by (simp add: macho_section_bytes_def)
  show "fst (extract_macho_buildinfo e f) =
      Inr (takeWhile (\<lambda>b. b \<noteq> 0) (macho_section_bytes bs k j))"
    using y by simp
  show "n_calls is_Ftell (snd (extract_macho_buildinfo e f)) = n_calls is_Ftell f + Suc k"
    using y g(2) by (simp add: n_calls_def)
  show "pos (snd (extract_macho_buildinfo e f)) = unat (offset ?s) + unat (size64 ?s)"
    using y by simp
qed

lemma fseek_heap [simp]: "fseek (e\<lparr>out_of_table := m\<rparr>) = fseek e"
  by (intro ext) (simp add: fseek_def seekable_def)

lemma print_section_heap [simp]: "print_section (e\<lparr>out_of_table := m\<rparr>) = print_section e"
  by (intro ext) (simp add: print_section_def Let_def split_def)

lemma find_buildinfo_heap [simp]:
  "find_buildinfo (e\<lparr>out_of_table := m\<rparr>) strtab secs f = find_buildinfo e strtab secs f"
  by (induction secs) (simp_all split: option.splits bool.splits)

lemma read_strtab_heap [simp]:
  "read_strtab (e\<lparr>out_of_table := m\<rparr>) st secs f = read_strtab e st secs f"
  by (simp add: read_strtab_def Let_def split_def)

lemma section_step_heap [simp]: "section_step (e\<lparr>out_of_table := m\<rparr>) = section_step e"
  by (intro ext) (simp add: section_step_def Let_def split_def split: option.splits bool.splits)

lemma load_command_step_heap [simp]:
  "load_command_step (e\<lparr>out_of_table := m\<rparr>) = load_command_step e"
  by (intro ext) (simp add: load_command_step_def Let_def split_def split: option.splits)

lemma extract_macho_heap [simp]:
  "extract_macho_buildinfo (e\<lparr>out_of_table := m\<rparr>) f = extract_macho_buildinfo e f"
  by (simp add: extract_macho_buildinfo_def Let_def split_def)



lemma calls_print_section:
  "\<exists>cs. calls (snd (print_section e what off sz f)) = calls f @ cs"
  by (simp add: print_section_def Let_def split_def fseek_def fread_def)

lemma calls_find_buildinfo:
  "\<exists>cs. calls (snd (find_buildinfo e strtab secs f)) = calls f @ cs"
  by (induction secs) (auto simp: calls_print_section split: option.splits bool.splits)

lemma calls_read_strtab:
  assumes "malloc_ok e (unat (sh_size st))"
  shows "\<exists>cs. calls (snd (read_strtab e st secs f)) =
           calls f @ [Fseek (sint (sh_offset st)), Fread (unat (sh_size st)) 1] @ cs"
proof -
  let ?f2 = "snd (fread (unat (sh_size st)) 1 (fseek e (sint (sh_offset st)) f))"
  have c: "calls ?f2 = calls f @ [Fseek (sint (sh_offset st)), Fread (unat (sh_size st)) 1]"
    by (simp add: fread_def fseek_def Let_def)
  obtain cs where "calls (snd (find_buildinfo e (fst (fst (fread (unat (sh_size st)) 1
      (fseek e (sint (sh_offset st)) f)))) secs ?f2)) = calls ?f2 @ cs"
    using calls_find_buildinfo by blast
  then show ?thesis
    using assms c by (auto simp: read_strtab_def Let_def split_def)
qed

section \<open>The claims\<close>

subsection \<open>C1: the bytes of the section on standard output\<close>

text \<open>
  C1, as amended. The program is run on a file, and \<^verbatim>\<open>malloc\<close> grants every request of no more
  bytes than the file has, plus one. Without \<^verbatim>\<open>__APPLE__\<close>: when the file is an ELF file in
  the byte order of the host whose tables lie inside it and whose first section named
  \<^verbatim>\<open>.buildinfo\<close> has contents \<open>B\<close> inside the file, not empty, the program returns 0 and
  prints the bytes of \<open>B\<close> before its first zero byte, and nothing else: all of \<open>B\<close> when no
  byte of \<open>B\<close> is zero. With \<^verbatim>\<open>__APPLE__\<close> the same holds for a Mach-O file in the byte order
  of the host and its first section named \<^verbatim>\<open>__buildinfo\<close>.
\<close>

theorem buildinfo_bytes_printed:
  assumes "length argv = 2" and "fs (argv ! 1) = Inr bs"
    and "\<forall>n \<le> Suc (length bs). malloc_ok e n"
  shows "(\<not> apple e \<and> valid_elf64 bs i \<and> elf_section_bytes bs i \<noteq> [] \<longrightarrow>
            fst (main e argv fs) = Inr (takeWhile (\<lambda>b. b \<noteq> 0) (elf_section_bytes bs i)) \<and>
            (0 \<notin> set (elf_section_bytes bs i) \<longrightarrow>
               fst (main e argv fs) = Inr (elf_section_bytes bs i))) \<and>
         (apple e \<and> valid_macho64 bs k j \<and> macho_section_bytes bs k j \<noteq> [] \<longrightarrow>
            fst (main e argv fs) = Inr (takeWhile (\<lambda>b. b \<noteq> 0) (macho_section_bytes bs k j)) \<and>
            (0 \<notin> set (macho_section_bytes bs k j) \<longrightarrow>
               fst (main e argv fs) = Inr (macho_section_bytes bs k j)))"
proof -
  have m: "fst (main e argv fs) = fst (main_file e (fopen_rb bs))"
    using assms(1,2) by (simp add: main_def split_def)
  have "fst (main_file e (fopen_rb bs)) = Inr (takeWhile (\<lambda>b. b \<noteq> 0) (elf_section_bytes bs i))"
    if a: "\<not> apple e" and v: "valid_elf64 bs i" and n: "elf_section_bytes bs i \<noteq> []"
  proof -
    from v have "64 \<le> length bs" "take 4 bs = ELFMAG"
      by (simp_all add: valid_elf64_def elf_tables_ok_def)
    then have "main_file e (fopen_rb bs) =
        extract_elf_buildinfo e \<lparr>content = bs, pos = 4, calls = [Fread 4 1]\<rparr>"
      using a by (simp add: main_file_elf_magic)
    then show ?thesis
      using extract_elf_valid [OF a v n, of "\<lparr>content = bs, pos = 4, calls = [Fread 4 1]\<rparr>"] assms(3)
      by simp
  qed
  moreover have "fst (main_file e (fopen_rb bs)) =
      Inr (takeWhile (\<lambda>b. b \<noteq> 0) (macho_section_bytes bs k j))"
    if a: "apple e" and v: "valid_macho64 bs k j" and n: "macho_section_bytes bs k j \<noteq> []"
  proof -
    let ?s = "sect_at bs k j"
    from v have "32 \<le> length bs" "take 4 bs = MH_MAGIC_64_bytes" and len: "length bs < 2 ^ 63"
      and rng: "unat (offset ?s) + unat (size64 ?s) \<le> length bs"
      by (simp_all add: valid_macho64_def macho_first_buildinfo_def)
    then have x: "main_file e (fopen_rb bs) =
        extract_macho_buildinfo e \<lparr>content = bs, pos = 4, calls = [Fread 4 1]\<rparr>"
      using a by (simp add: main_file_macho_magic)
    have "unat (size64 ?s) < 2 ^ 63" using len rng by linarith
    then have "size64 ?s + 1 \<noteq> 0" by (rule succ_nonzero)
    then have "unat (size64 ?s + 1) = unat (size64 ?s) + 1"
      using unatSuc [of "size64 ?s"] by (simp add: add.commute)
    then have "malloc_ok e (unat (size64 ?s + 1))" using rng assms(3) by simp
    then show ?thesis
      using x extract_macho_valid(1) [OF a v n, of "\<lparr>content = bs, pos = 4, calls = [Fread 4 1]\<rparr>"]
      by simp
  qed
  moreover have "takeWhile (\<lambda>b. b \<noteq> 0) xs = xs" if "0 \<notin> set xs" for xs :: "byte list"
    using that by (simp add: takeWhile_eq_all_conv) metis
  ultimately show ?thesis using m by simp
qed

theorem buildinfo_bytes_printed_witness:
  "length [''extract-buildinfo'', ''a.out''] = 2 \<and> malloc_ok linux = (\<lambda>n. True) \<and>
   \<not> apple linux \<and> valid_elf64 (elf_file 0 2 (bytes_of ''1.2'')) 1 \<and>
   elf_section_bytes (elf_file 0 2 (bytes_of ''1.2'')) 1 = bytes_of ''1.2'' \<and>
   fst (main linux [''extract-buildinfo'', ''a.out''] (\<lambda>p. Inr (elf_file 0 2 (bytes_of ''1.2'')))) =
     Inr (bytes_of ''1.2'') \<and>
   malloc_ok macos = (\<lambda>n. True) \<and>
   apple macos \<and> valid_macho64 (macho_file le_bytes) 1 1 \<and>
   macho_section_bytes (macho_file le_bytes) 1 1 = bytes_of ''1.2'' \<and>
   fst (main macos [''extract-buildinfo'', ''a.out''] (\<lambda>p. Inr (macho_file le_bytes))) =
     Inr (bytes_of ''1.2'')"
proof -
  have a: "\<not> apple linux" "apple macos" "malloc_ok linux = (\<lambda>n. True)" "malloc_ok macos = (\<lambda>n. True)"
    by (simp_all add: linux_def macos_def)
  have v: "valid_elf64 (elf_file 0 2 (bytes_of ''1.2'')) 1"
    by (simp add: view_defs fixture_defs decode_defs)
  have b: "elf_section_bytes (elf_file 0 2 (bytes_of ''1.2'')) 1 = bytes_of ''1.2''"
    by (simp add: view_defs fixture_defs decode_defs)
  have w: "valid_macho64 (macho_file le_bytes) 1 1"
    by (simp add: view_defs fixture_defs decode_defs)
  have c: "macho_section_bytes (macho_file le_bytes) 1 1 = bytes_of ''1.2''"
    by (simp add: view_defs fixture_defs decode_defs)
  have z: "0 \<notin> set (bytes_of ''1.2'')" "bytes_of ''1.2'' \<noteq> []" by (simp_all add: bytes_of_def)
  show ?thesis
    using buildinfo_bytes_printed [of "[''extract-buildinfo'', ''a.out'']"
        "\<lambda>p. Inr (elf_file 0 2 (bytes_of ''1.2''))" "elf_file 0 2 (bytes_of ''1.2'')" linux 1 0 0]
      buildinfo_bytes_printed [of "[''extract-buildinfo'', ''a.out'']"
        "\<lambda>p. Inr (macho_file le_bytes)" "macho_file le_bytes" macos 0 1 1]
      a v b w c z
    by (simp add: bytes_of_def)
qed

text \<open>
  C1 as stated fails on a build without \<^verbatim>\<open>__APPLE__\<close>. On an ELF file that the program reads
  in full: with an empty \<^verbatim>\<open>.buildinfo\<close> section the read of one item of size 0 returns 0 and
  the program reports a read failure; with contents \<open>A\<close>, 0, \<open>B\<close> only \<open>A\<close> is printed. On a
  big-endian ELF64 file whose \<^verbatim>\<open>.buildinfo\<close> section holds \<^verbatim>\<open>1.2\<close>, the fields are read in
  the byte order of the host all the same: the section count 3 is read as 768 and the
  program reports that it cannot read the section headers. And on a machine where \<^verbatim>\<open>malloc\<close>
  returns no buffer, the file that is printed otherwise gets the diagnostic of the
  allocation.
\<close>

theorem buildinfo_bytes_printed_counterexample:
  "valid_elf64 (elf_file 0 2 []) 1 \<and>
   elf_section_bytes (elf_file 0 2 []) 1 = [] \<and>
   fst (main linux [''extract-buildinfo'', ''a.out''] (\<lambda>p. Inr (elf_file 0 2 []))) =
     Inl (Failure ''Failed to read .buildinfo section\<newline>'') \<and>
   valid_elf64 (elf_file 0 2 [0x41, 0, 0x42]) 1 \<and>
   elf_section_bytes (elf_file 0 2 [0x41, 0, 0x42]) 1 = [0x41, 0, 0x42] \<and>
   fst (main linux [''extract-buildinfo'', ''a.out''] (\<lambda>p. Inr (elf_file 0 2 [0x41, 0, 0x42]))) =
     Inr [0x41] \<and>
   take 6 (elf_file_be (bytes_of ''1.2'')) = ELFMAG @ [2, 2] \<and>
   slice (elf_file_be (bytes_of ''1.2'')) 64 3 = bytes_of ''1.2'' \<and>
   unat (e_shnum (elf_ehdr (elf_file_be (bytes_of ''1.2'')))) = 768 \<and>
   fst (main linux [''extract-buildinfo'', ''a.out''] (\<lambda>p. Inr (elf_file_be (bytes_of ''1.2'')))) =
     Inl (Failure ''Failed to read section headers\<newline>'') \<and>
   valid_elf64 (elf_file 0 2 (bytes_of ''1.2'')) 1 \<and>
   fst (main (linux\<lparr>malloc_ok := (\<lambda>n. False)\<rparr>) [''extract-buildinfo'', ''a.out'']
          (\<lambda>p. Inr (elf_file 0 2 (bytes_of ''1.2'')))) =
     Inl (Failure ''Memory allocation failed\<newline>'')"
proof -
  have "valid_elf64 (elf_file 0 2 []) 1"
    by (simp add: view_defs fixture_defs decode_defs)
  moreover have "elf_section_bytes (elf_file 0 2 []) 1 = []"
    by (simp add: view_defs fixture_defs decode_defs)
  moreover have "fst (main linux [''extract-buildinfo'', ''a.out''] (\<lambda>p. Inr (elf_file 0 2 []))) =
      Inl (Failure ''Failed to read .buildinfo section\<newline>'')"
    by (simp add: main_def model_defs fixture_defs decode_defs)
  moreover have "valid_elf64 (elf_file 0 2 [0x41, 0, 0x42]) 1"
    by (simp add: view_defs fixture_defs decode_defs)
  moreover have "elf_section_bytes (elf_file 0 2 [0x41, 0, 0x42]) 1 = [0x41, 0, 0x42]"
    by (simp add: view_defs fixture_defs decode_defs)
  moreover have "fst (main linux [''extract-buildinfo'', ''a.out'']
      (\<lambda>p. Inr (elf_file 0 2 [0x41, 0, 0x42]))) = Inr [0x41]"
    by (simp add: main_def model_defs fixture_defs decode_defs)
  moreover have "take 6 (elf_file_be (bytes_of ''1.2'')) = ELFMAG @ [2, 2]"
    by (simp add: fixture_defs)
  moreover have "slice (elf_file_be (bytes_of ''1.2'')) 64 3 = bytes_of ''1.2''"
    by (simp add: fixture_defs slice_def)
  moreover have "unat (e_shnum (elf_ehdr (elf_file_be (bytes_of ''1.2'')))) = 768"
    by (simp add: view_defs fixture_defs decode_defs)
  moreover have "fst (main linux [''extract-buildinfo'', ''a.out'']
      (\<lambda>p. Inr (elf_file_be (bytes_of ''1.2'')))) = Inl (Failure ''Failed to read section headers\<newline>'')"
    by (simp add: main_def model_defs fixture_defs decode_defs)
  moreover have "valid_elf64 (elf_file 0 2 (bytes_of ''1.2'')) 1"
    by (simp add: view_defs fixture_defs decode_defs)
  moreover have "fst (main (linux\<lparr>malloc_ok := (\<lambda>n. False)\<rparr>) [''extract-buildinfo'', ''a.out'']
      (\<lambda>p. Inr (elf_file 0 2 (bytes_of ''1.2'')))) = Inl (Failure ''Memory allocation failed\<newline>'')"
    by (simp add: main_def model_defs fixture_defs decode_defs)
  ultimately show ?thesis by simp
qed

subsection \<open>C2: the string-table index\<close>

text \<open>
  C2, as amended. The extractor does not compare \<^verbatim>\<open>e_shstrndx\<close> with \<^verbatim>\<open>e_shnum\<close>. Without
  \<^verbatim>\<open>__APPLE__\<close>, once the header and the section-header table are read into a buffer that
  \<^verbatim>\<open>malloc\<close> granted: when \<^verbatim>\<open>e_shstrndx\<close> is \<^verbatim>\<open>e_shnum\<close> or more, the string-table entry is taken
  from the memory behind the table, which C leaves undefined. If that memory can be read,
  the extractor goes on with the entry found there as with any other: no diagnostic is
  printed before, and when \<^verbatim>\<open>malloc\<close> grants the size found there, the next calls on the stream
  are the seek to the offset and the read of the size found there, a read of a string
  table; what follows depends on what the memory holds. When \<^verbatim>\<open>e_shstrndx\<close> is below
  \<^verbatim>\<open>e_shnum\<close> and the string table it names, not empty, lies inside the file, the string table
  is read at the offset and with the size of the table entry at that index, and the scan
  runs on it.
\<close>

theorem shstrndx_unchecked:
  assumes "\<not> apple e" and "elf_tables_ok bs" and "content f = bs"
    and "malloc_ok e (unat (e_shnum (elf_ehdr bs)) * 64)"
  shows "(unat (e_shnum (elf_ehdr bs)) \<le> unat (e_shstrndx (elf_ehdr bs)) \<longrightarrow>
            extract_elf_buildinfo e f =
              (case out_of_table e (unat (e_shstrndx (elf_ehdr bs))) of
                 None \<Rightarrow>
                   (Inl Undefined,
                    f\<lparr>pos := unat (e_shoff (elf_ehdr bs)) + 64 * unat (e_shnum (elf_ehdr bs)),
                      calls := calls f @
                        [Rewind, Fread 64 1, Fseek (int (unat (e_shoff (elf_ehdr bs)))),
                         Fread 64 (unat (e_shnum (elf_ehdr bs)))]\<rparr>)
               | Some mem \<Rightarrow>
                   read_strtab e (decode_Shdr mem) (elf_shdrs bs)
                     (f\<lparr>pos := unat (e_shoff (elf_ehdr bs)) + 64 * unat (e_shnum (elf_ehdr bs)),
                        calls := calls f @
                          [Rewind, Fread 64 1, Fseek (int (unat (e_shoff (elf_ehdr bs)))),
                           Fread 64 (unat (e_shnum (elf_ehdr bs)))]\<rparr>))) \<and>
         (unat (e_shnum (elf_ehdr bs)) \<le> unat (e_shstrndx (elf_ehdr bs)) \<and>
          out_of_table e (unat (e_shstrndx (elf_ehdr bs))) = Some mem \<and>
          malloc_ok e (unat (sh_size (decode_Shdr mem))) \<longrightarrow>
            (\<exists>cs. calls (snd (extract_elf_buildinfo e f)) =
               calls f @
                 [Rewind, Fread 64 1, Fseek (int (unat (e_shoff (elf_ehdr bs)))),
                  Fread 64 (unat (e_shnum (elf_ehdr bs))),
                  Fseek (sint (sh_offset (decode_Shdr mem))),
                  Fread (unat (sh_size (decode_Shdr mem))) 1] @ cs)) \<and>
         (elf_strtab_ok bs \<and>
          malloc_ok e (unat (sh_size (elf_shdrs bs ! unat (e_shstrndx (elf_ehdr bs))))) \<longrightarrow>
            unat (e_shstrndx (elf_ehdr bs)) < unat (e_shnum (elf_ehdr bs)) \<and>
            extract_elf_buildinfo e f =
              find_buildinfo e (elf_strtab bs) (elf_shdrs bs)
                (f\<lparr>pos := unat (sh_offset (elf_shdrs bs ! unat (e_shstrndx (elf_ehdr bs)))) +
                          unat (sh_size (elf_shdrs bs ! unat (e_shstrndx (elf_ehdr bs)))),
                   calls := calls f @
                     [Rewind, Fread 64 1, Fseek (int (unat (e_shoff (elf_ehdr bs)))),
                      Fread 64 (unat (e_shnum (elf_ehdr bs))),
                      Fseek (int (unat (sh_offset (elf_shdrs bs ! unat (e_shstrndx (elf_ehdr bs)))))),
                      Fread (unat (sh_size (elf_shdrs bs ! unat (e_shstrndx (elf_ehdr bs))))) 1]\<rparr>))"
proof -
  let ?idx = "unat (e_shstrndx (elf_ehdr bs))"
  let ?f4 = "f\<lparr>pos := unat (e_shoff (elf_ehdr bs)) + 64 * unat (e_shnum (elf_ehdr bs)),
      calls := calls f @ [Rewind, Fread 64 1, Fseek (int (unat (e_shoff (elf_ehdr bs)))),
        Fread 64 (unat (e_shnum (elf_ehdr bs)))]\<rparr>"
  have x: "extract_elf_buildinfo e f = read_strtab_and_find e (elf_ehdr bs) (elf_shdrs bs) ?f4"
    using assms by (rule extract_elf_tables)
  have l: "length (elf_shdrs bs) = unat (e_shnum (elf_ehdr bs))" by (simp add: elf_shdrs_def)
  have o: "extract_elf_buildinfo e f =
      (case out_of_table e ?idx of
         None \<Rightarrow> (Inl Undefined, ?f4)
       | Some mem \<Rightarrow> read_strtab e (decode_Shdr mem) (elf_shdrs bs) ?f4)"
    if "unat (e_shnum (elf_ehdr bs)) \<le> ?idx"
  proof -
    have "\<not> ?idx < length (elf_shdrs bs)" using that l by simp
    then show ?thesis unfolding x read_strtab_and_find_def by (simp only: if_False)
  qed
  have c: "\<exists>cs. calls (snd (extract_elf_buildinfo e f)) =
      calls f @ [Rewind, Fread 64 1, Fseek (int (unat (e_shoff (elf_ehdr bs)))),
        Fread 64 (unat (e_shnum (elf_ehdr bs))),
        Fseek (sint (sh_offset (decode_Shdr mem))), Fread (unat (sh_size (decode_Shdr mem))) 1] @ cs"
    if "unat (e_shnum (elf_ehdr bs)) \<le> ?idx" and m: "out_of_table e ?idx = Some mem"
      and g: "malloc_ok e (unat (sh_size (decode_Shdr mem)))"
  proof -
    have "extract_elf_buildinfo e f = read_strtab e (decode_Shdr mem) (elf_shdrs bs) ?f4"
      using o [OF that(1)] m by simp
    then show ?thesis
      using calls_read_strtab [OF g, of "elf_shdrs bs" ?f4] by simp
  qed
  have i: "extract_elf_buildinfo e f =
      find_buildinfo e (elf_strtab bs) (elf_shdrs bs)
        (f\<lparr>pos := unat (sh_offset (elf_shdrs bs ! ?idx)) + unat (sh_size (elf_shdrs bs ! ?idx)),
           calls := calls f @
             [Rewind, Fread 64 1, Fseek (int (unat (e_shoff (elf_ehdr bs)))),
              Fread 64 (unat (e_shnum (elf_ehdr bs))),
              Fseek (int (unat (sh_offset (elf_shdrs bs ! ?idx)))),
              Fread (unat (sh_size (elf_shdrs bs ! ?idx))) 1]\<rparr>)"
    if s: "elf_strtab_ok bs" and g: "malloc_ok e (unat (sh_size (elf_shdrs bs ! ?idx)))"
  proof -
    have "content ?f4 = bs" using assms(3) by simp
    then show ?thesis
      unfolding x using read_strtab_and_find_in_table [OF assms(2) s _ g, of ?f4]
      by (simp add: Let_def)
  qed
  have "?idx < unat (e_shnum (elf_ehdr bs))" if "elf_strtab_ok bs"
    using that by (simp add: elf_strtab_ok_def)
  then show ?thesis using o c i by blast
qed

theorem shstrndx_unchecked_witness:
  "\<not> apple linux \<and> elf_tables_ok (elf_file 0 3 (bytes_of ''1.2'')) \<and>
   unat (e_shnum (elf_ehdr (elf_file 0 3 (bytes_of ''1.2'')))) \<le>
     unat (e_shstrndx (elf_ehdr (elf_file 0 3 (bytes_of ''1.2'')))) \<and>
   out_of_table linux (unat (e_shstrndx (elf_ehdr (elf_file 0 3 (bytes_of ''1.2''))))) =
     Some (zeros 64) \<and>
   decode_Shdr (zeros 64) = \<lparr>sh_name = 0, sh_offset = 0, sh_size = 0\<rparr> \<and>
   extract_elf_buildinfo linux (fopen_rb (elf_file 0 3 (bytes_of ''1.2''))) =
     (Inl (Failure ''Failed to read string table\<newline>''),
      \<lparr>content = elf_file 0 3 (bytes_of ''1.2''), pos = 0,
         calls = [Rewind, Fread 64 1, Fseek 89, Fread 64 3, Fseek 0, Fread 0 1]\<rparr>) \<and>
   elf_tables_ok (elf_file 0 2 (bytes_of ''1.2'')) \<and>
   elf_strtab_ok (elf_file 0 2 (bytes_of ''1.2'')) \<and>
   elf_strtab (elf_file 0 2 (bytes_of ''1.2'')) = shstrtab_demo \<and>
   calls (snd (extract_elf_buildinfo linux (fopen_rb (elf_file 0 2 (bytes_of ''1.2''))))) =
     [Rewind, Fread 64 1, Fseek 89, Fread 64 3, Fseek 67, Fread 22 1, Fseek 64, Fread 3 1]"
proof -
  let ?bad = "elf_file 0 3 (bytes_of ''1.2'')" and ?good = "elf_file 0 2 (bytes_of ''1.2'')"
  have a: "\<not> apple linux" "malloc_ok linux n" for n by (simp_all add: linux_def)
  have t: "elf_tables_ok ?bad" "elf_tables_ok ?good" "elf_strtab_ok ?good"
    by (simp_all add: view_defs fixture_defs decode_defs)
  have i: "unat (e_shnum (elf_ehdr ?bad)) \<le> unat (e_shstrndx (elf_ehdr ?bad))"
    by (simp add: view_defs fixture_defs decode_defs)
  have o: "out_of_table linux (unat (e_shstrndx (elf_ehdr ?bad))) = Some (zeros 64)"
    by (simp add: linux_def)
  have d: "decode_Shdr (zeros 64) = \<lparr>sh_name = 0, sh_offset = 0, sh_size = 0\<rparr>"
    by (simp add: decode_defs)
  have s: "elf_strtab ?good = shstrtab_demo"
    by (simp add: view_defs fixture_defs decode_defs)
  have h: "unat (e_shoff (elf_ehdr ?bad)) = 89" "unat (e_shnum (elf_ehdr ?bad)) = 3"
    "uint (e_shoff (elf_ehdr ?bad)) = 89"
    by (simp_all add: view_defs fixture_defs decode_defs)
  have r: "read_strtab linux \<lparr>sh_name = 0, sh_offset = 0, sh_size = 0\<rparr> (elf_shdrs ?bad)
      \<lparr>content = ?bad, pos = 281, calls = [Rewind, Fread 64 1, Fseek 89, Fread 64 3]\<rparr> =
      (Inl (Failure ''Failed to read string table\<newline>''),
       \<lparr>content = ?bad, pos = 0, calls = [Rewind, Fread 64 1, Fseek 89, Fread 64 3, Fseek 0, Fread 0 1]\<rparr>)"
    by (simp add: read_strtab_def fseek_def seekable_max fread_def Let_def linux_def)
  have y: "calls (snd (extract_elf_buildinfo linux (fopen_rb ?good))) =
      [Rewind, Fread 64 1, Fseek 89, Fread 64 3, Fseek 67, Fread 22 1, Fseek 64, Fread 3 1]"
    by (simp add: model_defs fixture_defs decode_defs)
  have "extract_elf_buildinfo linux (fopen_rb ?bad) =
      (Inl (Failure ''Failed to read string table\<newline>''),
       \<lparr>content = ?bad, pos = 0, calls = [Rewind, Fread 64 1, Fseek 89, Fread 64 3, Fseek 0, Fread 0 1]\<rparr>)"
    using shstrndx_unchecked [of linux ?bad "fopen_rb ?bad" "zeros 64"] a t i o d h r
    by (simp add: fopen_rb_def)
  then show ?thesis using a t i o d s y by simp
qed

text \<open>
  C2 as stated fails: in this file \<^verbatim>\<open>e_shstrndx\<close> is 3 and \<^verbatim>\<open>e_shnum\<close> is 3. With memory behind
  the table that is all zero, no error comes before the read of a string table: the program
  seeks to offset 0 and reads one item of size 0, as the entry that it found outside the
  table says, and it is that read that fails. With memory behind the table that holds a
  section header of offset 67 and size 22, the program does not fail at all: it prints the
  \<^verbatim>\<open>.buildinfo\<close> section.
\<close>

theorem shstrndx_unchecked_counterexample:
  "unat (e_shnum (elf_ehdr (elf_file 0 3 (bytes_of ''1.2'')))) = 3 \<and>
   unat (e_shstrndx (elf_ehdr (elf_file 0 3 (bytes_of ''1.2'')))) = 3 \<and>
   main linux [''extract-buildinfo'', ''a.out''] (\<lambda>p. Inr (elf_file 0 3 (bytes_of ''1.2''))) =
     (Inl (Failure ''Failed to read string table\<newline>''),
      Some \<lparr>content = elf_file 0 3 (bytes_of ''1.2''), pos = 0,
         calls = [Fread 4 1, Rewind, Fread 64 1, Fseek 89, Fread 64 3, Fseek 0, Fread 0 1]\<rparr>) \<and>
   decode_Shdr (mk_Shdr 12 67 22) = \<lparr>sh_name = 12, sh_offset = 67, sh_size = 22\<rparr> \<and>
   fst (main stale_heap [''extract-buildinfo'', ''a.out'']
          (\<lambda>p. Inr (elf_file 0 3 (bytes_of ''1.2'')))) =
     Inr (bytes_of ''1.2'')"
proof -
  have "unat (e_shnum (elf_ehdr (elf_file 0 3 (bytes_of ''1.2'')))) = 3"
    by (simp add: view_defs fixture_defs decode_defs)
  moreover have "unat (e_shstrndx (elf_ehdr (elf_file 0 3 (bytes_of ''1.2'')))) = 3"
    by (simp add: view_defs fixture_defs decode_defs)
  moreover have "main linux [''extract-buildinfo'', ''a.out'']
      (\<lambda>p. Inr (elf_file 0 3 (bytes_of ''1.2''))) =
      (Inl (Failure ''Failed to read string table\<newline>''),
       Some \<lparr>content = elf_file 0 3 (bytes_of ''1.2''), pos = 0,
          calls = [Fread 4 1, Rewind, Fread 64 1, Fseek 89, Fread 64 3, Fseek 0, Fread 0 1]\<rparr>)"
    by (simp add: main_def model_defs fixture_defs decode_defs)
  moreover have "decode_Shdr (mk_Shdr 12 67 22) = \<lparr>sh_name = 12, sh_offset = 67, sh_size = 22\<rparr>"
    by (simp add: fixture_defs decode_defs)
  moreover have "fst (main stale_heap [''extract-buildinfo'', ''a.out'']
      (\<lambda>p. Inr (elf_file 0 3 (bytes_of ''1.2'')))) = Inr (bytes_of ''1.2'')"
    by (simp add: main_def model_defs fixture_defs decode_defs)
  ultimately show ?thesis by simp
qed

subsection \<open>C3: the name offsets\<close>

text \<open>
  C3, as amended. The scan does not compare a name offset with the size of the string
  table. When the headers before it have names that end inside the table and are not
  \<^verbatim>\<open>.buildinfo\<close>, a header whose name offset is the size of the table or more makes the
  comparison read outside the table, which C leaves undefined, and no diagnostic is
  printed. A name offset after which the table still holds a zero byte keeps the comparison
  inside the table, and the comparison then says whether the name is \<^verbatim>\<open>.buildinfo\<close>.
\<close>

theorem name_offset_unchecked:
  "((\<forall>s \<in> set pre. 0 \<in> set (drop (unat (sh_name s)) strtab) \<and>
        c_string strtab (unat (sh_name s)) \<noteq> bytes_of ''.buildinfo'') \<and>
    length strtab \<le> unat (sh_name sh) \<longrightarrow>
      find_buildinfo e strtab (pre @ sh # post) f = (Inl Undefined, f)) \<and>
   (length strtab \<le> off \<longrightarrow> strcmp_eq strtab off (bytes_of ''.buildinfo'') = None) \<and>
   (0 \<in> set (drop off strtab) \<longrightarrow>
      strcmp_eq strtab off (bytes_of ''.buildinfo'') =
        Some (c_string strtab off = bytes_of ''.buildinfo''))"
proof -
  have z: "0 \<notin> set (bytes_of ''.buildinfo'')" by (simp add: bytes_of_elf_name)
  have t: "strcmp_eq strtab n (bytes_of ''.buildinfo'') =
      Some (c_string strtab n = bytes_of ''.buildinfo'')" if "0 \<in> set (drop n strtab)" for n
    using strcmp_eq_c_string [of n "bytes_of ''.buildinfo''" strtab] that z by simp
  have "find_buildinfo e strtab (pre @ sh # post) f = (Inl Undefined, f)"
    if p: "\<forall>s \<in> set pre. 0 \<in> set (drop (unat (sh_name s)) strtab) \<and>
        c_string strtab (unat (sh_name s)) \<noteq> bytes_of ''.buildinfo''"
      and o: "length strtab \<le> unat (sh_name sh)"
  proof (rule find_buildinfo_outside [OF _ o])
    show "\<forall>s \<in> set pre. strcmp_eq strtab (unat (sh_name s)) (bytes_of ''.buildinfo'') = Some False"
      using p t by simp
  qed
  moreover have "strcmp_eq strtab off (bytes_of ''.buildinfo'') = None" if "length strtab \<le> off"
    using that by (simp add: bytes_of_elf_name)
  ultimately show ?thesis using t [of off] by blast
qed

theorem name_offset_unchecked_witness:
  "0 \<in> set (drop (unat (sh_name \<lparr>sh_name = 12, sh_offset = 67, sh_size = 22\<rparr>)) shstrtab_demo) \<and>
   c_string shstrtab_demo (unat (sh_name \<lparr>sh_name = 12, sh_offset = 67, sh_size = 22\<rparr>)) =
     bytes_of ''.shstrtab'' \<and>
   length shstrtab_demo \<le> unat (sh_name \<lparr>sh_name = 22, sh_offset = 0, sh_size = 0\<rparr>) \<and>
   find_buildinfo linux shstrtab_demo
       ([\<lparr>sh_name = 12, sh_offset = 67, sh_size = 22\<rparr>] @
        \<lparr>sh_name = 22, sh_offset = 0, sh_size = 0\<rparr> # [\<lparr>sh_name = 1, sh_offset = 64, sh_size = 3\<rparr>])
       (fopen_rb []) =
     (Inl Undefined, fopen_rb []) \<and>
   length shstrtab_demo \<le> 22 \<and>
   strcmp_eq shstrtab_demo 22 (bytes_of ''.buildinfo'') = None \<and>
   0 \<in> set (drop 1 shstrtab_demo) \<and> c_string shstrtab_demo 1 = bytes_of ''.buildinfo'' \<and>
   strcmp_eq shstrtab_demo 1 (bytes_of ''.buildinfo'') = Some True"
proof -
  let ?pre = "[\<lparr>sh_name = 12, sh_offset = 67, sh_size = 22\<rparr>]"
  let ?sh = "\<lparr>sh_name = 22, sh_offset = 0, sh_size = 0\<rparr>"
  let ?post = "[\<lparr>sh_name = 1, sh_offset = 64, sh_size = 3\<rparr>]"
  have p: "\<forall>s \<in> set ?pre. 0 \<in> set (drop (unat (sh_name s)) shstrtab_demo) \<and>
      c_string shstrtab_demo (unat (sh_name s)) \<noteq> bytes_of ''.buildinfo''"
    by (simp add: shstrtab_demo_def bytes_of_def c_string_def)
  have o: "length shstrtab_demo \<le> unat (sh_name ?sh)" "length shstrtab_demo \<le> 22"
    by (simp_all add: shstrtab_demo_def bytes_of_def)
  have i: "0 \<in> set (drop 1 shstrtab_demo)" "c_string shstrtab_demo 1 = bytes_of ''.buildinfo''"
    "c_string shstrtab_demo 12 = bytes_of ''.shstrtab''"
    by (simp_all add: shstrtab_demo_def bytes_of_def c_string_def)
  show ?thesis
    using name_offset_unchecked [of ?pre shstrtab_demo ?sh linux ?post "fopen_rb []" 22]
      name_offset_unchecked [of ?pre shstrtab_demo ?sh linux ?post "fopen_rb []" 1] p o i
    by simp
qed

text \<open>
  C3 as stated fails: in this file the first section header has name offset 22, the size
  of the string table, and the extractor reports no error but reads behind the table.
\<close>

theorem name_offset_unchecked_counterexample:
  "length (elf_strtab (elf_file 22 2 (bytes_of ''1.2''))) = 22 \<and>
   unat (sh_name (elf_shdrs (elf_file 22 2 (bytes_of ''1.2'')) ! 0)) = 22 \<and>
   fst (main linux [''extract-buildinfo'', ''a.out''] (\<lambda>p. Inr (elf_file 22 2 (bytes_of ''1.2'')))) =
     Inl Undefined"
proof -
  have "length (elf_strtab (elf_file 22 2 (bytes_of ''1.2''))) = 22"
    by (simp add: view_defs fixture_defs decode_defs)
  moreover have "unat (sh_name (elf_shdrs (elf_file 22 2 (bytes_of ''1.2'')) ! 0)) = 22"
    by (simp add: view_defs fixture_defs decode_defs)
  moreover have "fst (main linux [''extract-buildinfo'', ''a.out'']
      (\<lambda>p. Inr (elf_file 22 2 (bytes_of ''1.2'')))) = Inl Undefined"
    by (simp add: main_def model_defs fixture_defs decode_defs)
  ultimately show ?thesis by simp
qed

subsection \<open>C4: one format for each build\<close>

text \<open>
  C4. A build dispatches one format. With \<^verbatim>\<open>__APPLE__\<close>, the ELF extractor fails whatever
  the stream, only the two Mach-O magics are dispatched, and every file that starts with the
  ELF magic gets the unknown-format diagnostic; without it, the Mach-O extractor fails
  whatever the stream, only the ELF magic is dispatched, and every file that starts with
  one of the Mach-O magics gets the unknown-format diagnostic.
\<close>

theorem one_format_per_build:
  "(apple e \<longrightarrow>
      extract_elf_buildinfo e f =
        (Inl (Failure ''ELF format not supported on this platform\<newline>''), f) \<and>
      dispatch e m f =
        (if m = MH_MAGIC_64 \<or> m = MH_CIGAM_64 then extract_macho_buildinfo e f
         else (Inl (Failure ''Unknown or unsupported binary format\<newline>''), f)) \<and>
      (4 \<le> length bs \<and> take 4 bs = ELFMAG \<longrightarrow>
         fst (main_file e (fopen_rb bs)) =
           Inl (Failure ''Unknown or unsupported binary format\<newline>''))) \<and>
   (\<not> apple e \<longrightarrow>
      extract_macho_buildinfo e f =
        (Inl (Failure ''Mach-O format not supported on this platform\<newline>''), f) \<and>
      dispatch e m f =
        (if m = 0x464c457f then extract_elf_buildinfo e f
         else (Inl (Failure ''Unknown or unsupported binary format\<newline>''), f)) \<and>
      (4 \<le> length bs \<and> (take 4 bs = MH_MAGIC_64_bytes \<or> take 4 bs = MH_CIGAM_64_bytes) \<longrightarrow>
         fst (main_file e (fopen_rb bs)) =
           Inl (Failure ''Unknown or unsupported binary format\<newline>'')))"
  by (simp add: extract_elf_buildinfo_def extract_macho_buildinfo_def dispatch_def
      main_file_elf_magic main_file_macho_magic)

theorem one_format_per_build_witness:
  "apple macos \<and> 4 \<le> length (elf_file 0 2 (bytes_of ''1.2'')) \<and>
   take 4 (elf_file 0 2 (bytes_of ''1.2'')) = ELFMAG \<and>
   fst (main_file macos (fopen_rb (elf_file 0 2 (bytes_of ''1.2'')))) =
     Inl (Failure ''Unknown or unsupported binary format\<newline>'') \<and>
   fst (main_file linux (fopen_rb (elf_file 0 2 (bytes_of ''1.2'')))) = Inr (bytes_of ''1.2'') \<and>
   \<not> apple linux \<and> 4 \<le> length (macho_file le_bytes) \<and>
   take 4 (macho_file le_bytes) = MH_MAGIC_64_bytes \<and>
   fst (main_file linux (fopen_rb (macho_file le_bytes))) =
     Inl (Failure ''Unknown or unsupported binary format\<newline>'') \<and>
   fst (main_file macos (fopen_rb (macho_file le_bytes))) = Inr (bytes_of ''1.2'')"
proof -
  have a: "apple macos" "\<not> apple linux" by (simp_all add: macos_def linux_def)
  have e: "4 \<le> length (elf_file 0 2 (bytes_of ''1.2''))"
    "take 4 (elf_file 0 2 (bytes_of ''1.2'')) = ELFMAG"
    by (simp_all add: fixture_defs)
  have m: "4 \<le> length (macho_file le_bytes)" "take 4 (macho_file le_bytes) = MH_MAGIC_64_bytes"
    by (simp_all add: fixture_defs MH_MAGIC_64_bytes_def)
  have x: "fst (main_file linux (fopen_rb (elf_file 0 2 (bytes_of ''1.2'')))) = Inr (bytes_of ''1.2'')"
    by (simp add: model_defs fixture_defs decode_defs)
  have y: "fst (main_file macos (fopen_rb (macho_file le_bytes))) = Inr (bytes_of ''1.2'')"
    by (simp add: model_defs fixture_defs decode_defs)
  show ?thesis
    using one_format_per_build [of macos undefined undefined "elf_file 0 2 (bytes_of ''1.2'')"]
      one_format_per_build [of linux undefined undefined "macho_file le_bytes"] a e m x y
    by simp
qed

subsection \<open>C5: Mach-O files in the other byte order\<close>

text \<open>
  C5. A Mach-O file in the other byte order passes both checks of the magic, and every field
  after it is still read in the byte order of the host: of two files that differ in nothing
  but their byte order, the one in the order of the host has its section printed, the other
  has its command count and sizes misread and gets a read failure.
\<close>

theorem reverse_endian_fields_not_swapped:
  "take 4 (macho_file be_bytes) = MH_CIGAM_64_bytes \<and>
   fst (main_file macos (fopen_rb (macho_file le_bytes))) = Inr (bytes_of ''1.2'') \<and>
   fst (main_file macos (fopen_rb (macho_file be_bytes))) =
     Inl (Failure ''Failed to read load command\<newline>'') \<and>
   ncmds (decode_mach_header_64 (take 32 (macho_file be_bytes))) = 0x2000000"
proof -
  have "take 4 (macho_file be_bytes) = MH_CIGAM_64_bytes"
    by (simp add: fixture_defs MH_CIGAM_64_bytes_def)
  moreover have "fst (main_file macos (fopen_rb (macho_file le_bytes))) = Inr (bytes_of ''1.2'')"
    by (simp add: model_defs fixture_defs decode_defs)
  moreover have "fst (main_file macos (fopen_rb (macho_file be_bytes))) =
      Inl (Failure ''Failed to read load command\<newline>'')"
    by (simp add: model_defs fixture_defs decode_defs)
  moreover have "ncmds (decode_mach_header_64 (take 32 (macho_file be_bytes))) = 0x2000000"
    by (simp add: fixture_defs decode_defs)
  ultimately show ?thesis by simp
qed

subsection \<open>C6: a section name that fills its field\<close>

text \<open>
  C6. The comparison of a section's 16-byte name field with \<^verbatim>\<open>__buildinfo\<close> looks at no byte
  outside the field (the result is never \<open>None\<close>) and says whether the string in the field
  is \<^verbatim>\<open>__buildinfo\<close>: the first twelve bytes are the name and its terminator. A name of 16
  bytes that are not zero is never taken for \<^verbatim>\<open>__buildinfo\<close>, and the loop goes on to the
  next section record.
\<close>

theorem sectname_compared_within_field:
  assumes "pos f + 80 \<le> length (content f)"
  shows "length (sectname (decode_section_64 (slice (content f) (pos f) 80))) = 16 \<and>
         strcmp_eq (sectname (decode_section_64 (slice (content f) (pos f) 80))) 0
             (bytes_of ''__buildinfo'') =
           Some (take 12 (sectname (decode_section_64 (slice (content f) (pos f) 80))) =
                   bytes_of ''__buildinfo'' @ [0]) \<and>
         (0 \<notin> set (sectname (decode_section_64 (slice (content f) (pos f) 80))) \<longrightarrow>
            strcmp_eq (sectname (decode_section_64 (slice (content f) (pos f) 80))) 0
                (bytes_of ''__buildinfo'') = Some False \<and>
            section_step e f = (None, f\<lparr>pos := pos f + 80, calls := calls f @ [Fread 80 1]\<rparr>))"
proof -
  let ?nm = "sectname (decode_section_64 (slice (content f) (pos f) 80))"
  have "length (slice (content f) (pos f) 80) = 80" using assms by (simp add: slice_def)
  then have l: "length ?nm = 16" by (simp add: length_sectname)
  have z: "0 \<notin> set (bytes_of ''__buildinfo'')" by (simp add: bytes_of_macho_name)
  have "0 + length (bytes_of ''__buildinfo'') < length ?nm" using l by (simp add: bytes_of_macho_name)
  then have "strcmp_eq ?nm 0 (bytes_of ''__buildinfo'') =
      Some (take (Suc (length (bytes_of ''__buildinfo''))) (drop 0 ?nm) = bytes_of ''__buildinfo'' @ [0])"
    using z by (rule strcmp_eq_in_field)
  moreover have "Suc (length (bytes_of ''__buildinfo'')) = 12" by (simp add: bytes_of_def)
  ultimately have c: "strcmp_eq ?nm 0 (bytes_of ''__buildinfo'') =
      Some (take 12 ?nm = bytes_of ''__buildinfo'' @ [0])"
    by (simp only: drop_0)
  have n: "take 12 ?nm \<noteq> bytes_of ''__buildinfo'' @ [0]" if "0 \<notin> set ?nm"
  proof
    assume "take 12 ?nm = bytes_of ''__buildinfo'' @ [0]"
    then have "0 \<in> set (take 12 ?nm)" by simp
    then show False using that by (auto dest: in_set_takeD)
  qed
  have s: "section_step e f = (None, f\<lparr>pos := pos f + 80, calls := calls f @ [Fread 80 1]\<rparr>)"
    if "0 \<notin> set ?nm"
  proof -
    have "fread 80 1 f =
        ((slice (content f) (pos f) 80, 1), f\<lparr>pos := pos f + 80, calls := calls f @ [Fread 80 1]\<rparr>)"
      using fread_in_range [of 80 f 1] assms by simp
    then show ?thesis using c n [OF that] by (simp add: section_step_def Let_def)
  qed
  show ?thesis using l c n s by simp
qed

theorem sectname_compared_within_field_witness:
  "pos \<lparr>content = macho_file le_bytes, pos = 128, calls = []\<rparr> + 80 \<le>
     length (content \<lparr>content = macho_file le_bytes, pos = 128, calls = []\<rparr>) \<and>
   sectname (decode_section_64 (slice (macho_file le_bytes) 128 80)) = bytes_of ''__buildinfo_long'' \<and>
   0 \<notin> set (sectname (decode_section_64 (slice (macho_file le_bytes) 128 80))) \<and>
   strcmp_eq (bytes_of ''__buildinfo_long'') 0 (bytes_of ''__buildinfo'') = Some False \<and>
   section_step macos \<lparr>content = macho_file le_bytes, pos = 128, calls = []\<rparr> =
     (None, \<lparr>content = macho_file le_bytes, pos = 208, calls = [Fread 80 1]\<rparr>)"
proof -
  let ?f = "\<lparr>content = macho_file le_bytes, pos = 128, calls = []\<rparr>"
  have r: "pos ?f + 80 \<le> length (content ?f)" by (simp add: fixture_defs)
  have nm: "sectname (decode_section_64 (slice (macho_file le_bytes) 128 80)) = bytes_of ''__buildinfo_long''"
    by (simp add: fixture_defs decode_defs)
  have z: "0 \<notin> set (bytes_of ''__buildinfo_long'')" by (simp add: bytes_of_def)
  show ?thesis
    using sectname_compared_within_field [OF r, of macos] nm z r by (simp add: bytes_of_def)
qed

subsection \<open>C7: the first match\<close>

text \<open>
  C7, as amended. In a Mach-O file in the byte order of the host whose first section named
  \<^verbatim>\<open>__buildinfo\<close>, in the order of the load commands, is section \<open>j\<close> of command \<open>k\<close>, lies
  inside the file and is not empty, the extractor prints the bytes of that section before
  its first zero byte, whatever sections and commands follow; the loop over the commands
  has made \<open>k + 1\<close> turns and no more, and the stream is left behind the section that was
  printed. In an ELF file in the byte order of the host whose first section header named
  \<^verbatim>\<open>.buildinfo\<close> is header \<open>i\<close>, with contents inside the file and not empty, the extractor
  prints the bytes of section \<open>i\<close> before its first zero byte, whatever headers follow, and
  the last thing it does on the stream is to read that section. In both, \<^verbatim>\<open>malloc\<close> grants
  what is asked of it.
\<close>

theorem first_match_wins:
  "(apple e \<and> valid_macho64 bs k j \<and> macho_section_bytes bs k j \<noteq> [] \<and> content f = bs \<and>
    malloc_ok e (unat (size64 (sect_at bs k j) + 1)) \<longrightarrow>
      fst (extract_macho_buildinfo e f) =
        Inr (takeWhile (\<lambda>b. b \<noteq> 0) (macho_section_bytes bs k j)) \<and>
      n_calls is_Ftell (snd (extract_macho_buildinfo e f)) = n_calls is_Ftell f + Suc k \<and>
      pos (snd (extract_macho_buildinfo e f)) =
        unat (offset (sect_at bs k j)) + unat (size64 (sect_at bs k j))) \<and>
   (\<not> apple e \<and> valid_elf64 bs i \<and> elf_section_bytes bs i \<noteq> [] \<and> content f = bs \<and>
    (\<forall>n \<le> Suc (length bs). malloc_ok e n) \<longrightarrow>
      extract_elf_buildinfo e f =
        (Inr (takeWhile (\<lambda>b. b \<noteq> 0) (elf_section_bytes bs i)),
         f\<lparr>pos := unat (sh_offset (elf_shdrs bs ! i)) + unat (sh_size (elf_shdrs bs ! i)),
           calls := calls f @
             [Rewind, Fread 64 1, Fseek (int (unat (e_shoff (elf_ehdr bs)))),
              Fread 64 (unat (e_shnum (elf_ehdr bs))),
              Fseek (int (unat (sh_offset (elf_shdrs bs ! unat (e_shstrndx (elf_ehdr bs)))))),
              Fread (unat (sh_size (elf_shdrs bs ! unat (e_shstrndx (elf_ehdr bs))))) 1,
              Fseek (int (unat (sh_offset (elf_shdrs bs ! i)))),
              Fread (unat (sh_size (elf_shdrs bs ! i))) 1]\<rparr>))"
  using extract_macho_valid [of e bs k j f] extract_elf_valid [of e bs i f]
  by blast

theorem first_match_wins_witness:
  "apple macos \<and> valid_macho64 (macho_dup (bytes_of ''one'') (bytes_of ''two'')) 0 0 \<and>
   macho_section_bytes (macho_dup (bytes_of ''one'') (bytes_of ''two'')) 0 0 = bytes_of ''one'' \<and>
   sect_name (sect_at (macho_dup (bytes_of ''one'') (bytes_of ''two'')) 1 0) = bytes_of ''__buildinfo'' \<and>
   macho_section_bytes (macho_dup (bytes_of ''one'') (bytes_of ''two'')) 1 0 = bytes_of ''two'' \<and>
   fst (extract_macho_buildinfo macos (fopen_rb (macho_dup (bytes_of ''one'') (bytes_of ''two'')))) =
     Inr (bytes_of ''one'') \<and>
   n_calls is_Ftell
     (snd (extract_macho_buildinfo macos (fopen_rb (macho_dup (bytes_of ''one'') (bytes_of ''two''))))) = 1 \<and>
   pos (snd (extract_macho_buildinfo macos (fopen_rb (macho_dup (bytes_of ''one'') (bytes_of ''two''))))) =
     339 \<and>
   \<not> apple linux \<and> valid_elf64 elf_dup 1 \<and> elf_section_bytes elf_dup 1 = bytes_of ''one'' \<and>
   elf_name elf_dup 2 = Some (bytes_of ''.buildinfo'') \<and>
   elf_section_bytes elf_dup 2 = bytes_of ''two'' \<and>
   extract_elf_buildinfo linux (fopen_rb elf_dup) =
     (Inr (bytes_of ''one''),
      \<lparr>content = elf_dup, pos = 67,
         calls = [Rewind, Fread 64 1, Fseek 92, Fread 64 4, Fseek 70, Fread 22 1, Fseek 64, Fread 3 1]\<rparr>)"
proof -
  let ?m = "macho_dup (bytes_of ''one'') (bytes_of ''two'')"
  have a: "apple macos" "\<not> apple linux" by (simp_all add: macos_def linux_def)
  have ma: "malloc_ok macos n" "malloc_ok linux n" for n by (simp_all add: macos_def linux_def)
  have m: "valid_macho64 ?m 0 0"
    by (simp add: view_defs fixture_defs decode_defs)
  have m1: "macho_section_bytes ?m 0 0 = bytes_of ''one''"
    by (simp add: view_defs fixture_defs decode_defs)
  have m2: "sect_name (sect_at ?m 1 0) = bytes_of ''__buildinfo''"
    by (simp add: view_defs fixture_defs decode_defs)
  have m3: "macho_section_bytes ?m 1 0 = bytes_of ''two''"
    by (simp add: view_defs fixture_defs decode_defs)
  have s: "unat (offset (sect_at ?m 0 0)) + unat (size64 (sect_at ?m 0 0)) = 339"
    by (simp add: view_defs fixture_defs decode_defs)
  have l: "valid_elf64 elf_dup 1"
    by (simp add: view_defs fixture_defs decode_defs)
  have l1: "elf_section_bytes elf_dup 1 = bytes_of ''one''"
    by (simp add: view_defs fixture_defs decode_defs)
  have l2: "elf_name elf_dup 2 = Some (bytes_of ''.buildinfo'')"
    by (simp add: view_defs fixture_defs decode_defs)
  have l3: "elf_section_bytes elf_dup 2 = bytes_of ''two''"
    by (simp add: view_defs fixture_defs decode_defs)
  have h: "unat (e_shoff (elf_ehdr elf_dup)) = 92" "unat (e_shnum (elf_ehdr elf_dup)) = 4"
    "unat (e_shstrndx (elf_ehdr elf_dup)) = 3"
    by (simp_all add: view_defs fixture_defs decode_defs)
  have t: "unat (sh_offset (elf_shdrs elf_dup ! 3)) = 70" "unat (sh_size (elf_shdrs elf_dup ! 3)) = 22"
    "unat (sh_offset (elf_shdrs elf_dup ! 1)) = 64" "unat (sh_size (elf_shdrs elf_dup ! 1)) = 3"
    by (simp_all add: view_defs fixture_defs decode_defs)
  have u: "uint (e_shoff (elf_ehdr elf_dup)) = 92" "uint (sh_offset (elf_shdrs elf_dup ! 3)) = 70"
    "uint (sh_offset (elf_shdrs elf_dup ! 1)) = 64"
    by (simp_all add: view_defs fixture_defs decode_defs)
  have z: "takeWhile (\<lambda>b. b \<noteq> 0) (bytes_of ''one'') = bytes_of ''one''" "bytes_of ''one'' \<noteq> []"
    by (simp_all add: bytes_of_def)
  have n: "n_calls is_Ftell (fopen_rb ?m) = 0" by (simp add: n_calls_def fopen_rb_def)
  show ?thesis
    using first_match_wins [of macos ?m 0 0 "fopen_rb ?m" 1]
      first_match_wins [of linux elf_dup 0 0 "fopen_rb elf_dup" 1]
      a ma m m1 m2 m3 s l l1 l2 l3 h t u z n
    by (simp add: fopen_rb_def)
qed

text \<open>
  C7 as stated fails on a Mach-O file in the byte order of the host with two segments that
  hold a section \<^verbatim>\<open>__buildinfo\<close> each. When the first of the two is empty, its bytes are not
  returned: the program reports a read failure. When the first holds \<open>A\<close>, 0, \<open>B\<close>, only \<open>A\<close>
  is printed. And on a machine where \<^verbatim>\<open>malloc\<close> returns no buffer, no section is printed.
\<close>

theorem first_match_wins_counterexample:
  "macho_first_buildinfo (macho_dup [] (bytes_of ''two'')) 0 0 \<and>
   macho_section_bytes (macho_dup [] (bytes_of ''two'')) 0 0 = [] \<and>
   sect_name (sect_at (macho_dup [] (bytes_of ''two'')) 1 0) = bytes_of ''__buildinfo'' \<and>
   macho_section_bytes (macho_dup [] (bytes_of ''two'')) 1 0 = bytes_of ''two'' \<and>
   fst (main macos [''extract-buildinfo'', ''a.out''] (\<lambda>p. Inr (macho_dup [] (bytes_of ''two'')))) =
     Inl (Failure ''Failed to read __buildinfo section\<newline>'') \<and>
   macho_first_buildinfo (macho_dup [0x41, 0, 0x42] (bytes_of ''two'')) 0 0 \<and>
   macho_section_bytes (macho_dup [0x41, 0, 0x42] (bytes_of ''two'')) 0 0 = [0x41, 0, 0x42] \<and>
   fst (main macos [''extract-buildinfo'', ''a.out'']
          (\<lambda>p. Inr (macho_dup [0x41, 0, 0x42] (bytes_of ''two'')))) =
     Inr [0x41] \<and>
   fst (main (macos\<lparr>malloc_ok := (\<lambda>n. False)\<rparr>) [''extract-buildinfo'', ''a.out'']
          (\<lambda>p. Inr (macho_dup (bytes_of ''one'') (bytes_of ''two'')))) =
     Inl (Failure ''Memory allocation failed\<newline>'')"
proof -
  have "macho_first_buildinfo (macho_dup [] (bytes_of ''two'')) 0 0"
    by (simp add: view_defs fixture_defs decode_defs)
  moreover have "macho_section_bytes (macho_dup [] (bytes_of ''two'')) 0 0 = []"
    by (simp add: view_defs fixture_defs decode_defs)
  moreover have "sect_name (sect_at (macho_dup [] (bytes_of ''two'')) 1 0) = bytes_of ''__buildinfo''"
    by (simp add: view_defs fixture_defs decode_defs)
  moreover have "macho_section_bytes (macho_dup [] (bytes_of ''two'')) 1 0 = bytes_of ''two''"
    by (simp add: view_defs fixture_defs decode_defs)
  moreover have "fst (main macos [''extract-buildinfo'', ''a.out'']
      (\<lambda>p. Inr (macho_dup [] (bytes_of ''two'')))) =
      Inl (Failure ''Failed to read __buildinfo section\<newline>'')"
    by (simp add: main_def model_defs fixture_defs decode_defs)
  moreover have "macho_first_buildinfo (macho_dup [0x41, 0, 0x42] (bytes_of ''two'')) 0 0"
    by (simp add: view_defs fixture_defs decode_defs)
  moreover have "macho_section_bytes (macho_dup [0x41, 0, 0x42] (bytes_of ''two'')) 0 0 = [0x41, 0, 0x42]"
    by (simp add: view_defs fixture_defs decode_defs)
  moreover have "fst (main macos [''extract-buildinfo'', ''a.out'']
      (\<lambda>p. Inr (macho_dup [0x41, 0, 0x42] (bytes_of ''two'')))) = Inr [0x41]"
    by (simp add: main_def model_defs fixture_defs decode_defs)
  moreover have "fst (main (macos\<lparr>malloc_ok := (\<lambda>n. False)\<rparr>) [''extract-buildinfo'', ''a.out'']
      (\<lambda>p. Inr (macho_dup (bytes_of ''one'') (bytes_of ''two'')))) =
      Inl (Failure ''Memory allocation failed\<newline>'')"
    by (simp add: main_def model_defs fixture_defs decode_defs)
  ultimately show ?thesis by simp
qed

subsection \<open>C8: files of an unknown format\<close>

text \<open>
  C8. A file of at least four bytes whose first four bytes are neither the ELF magic nor
  one of the two 64-bit Mach-O magics: on either build the program prints the unknown-format
  diagnostic and returns 1, and the only call on the stream is the read of the magic, so
  neither extractor has run (each begins with a rewind where it is compiled in, and prints a
  diagnostic of its own where it is not).
\<close>

theorem unknown_magic_rejected:
  assumes "length argv = 2" and "fs (argv ! 1) = Inr bs" and "4 \<le> length bs"
    and "take 4 bs \<noteq> ELFMAG" and "take 4 bs \<noteq> MH_MAGIC_64_bytes"
    and "take 4 bs \<noteq> MH_CIGAM_64_bytes"
  shows "main e argv fs =
           (Inl (Failure ''Unknown or unsupported binary format\<newline>''),
            Some \<lparr>content = bs, pos = 4, calls = [Fread 4 1]\<rparr>) \<and>
         exit_status (fst (main e argv fs)) = Some 1 \<and> stdout_of (fst (main e argv fs)) = []"
proof -
  have "dispatch e (u32 bs 0) f = (Inl (Failure ''Unknown or unsupported binary format\<newline>''), f)" for f
    using assms(3-6) by (simp add: dispatch_def magic_ELF magic_MH magic_CIGAM)
  then have "main_file e (fopen_rb bs) =
      (Inl (Failure ''Unknown or unsupported binary format\<newline>''),
       \<lparr>content = bs, pos = 4, calls = [Fread 4 1]\<rparr>)"
    using assms(3) by (simp add: main_file_magic)
  then show ?thesis using assms(1,2) by (simp add: main_def)
qed

theorem unknown_magic_rejected_witness:
  "length [''extract-buildinfo'', ''run.sh''] = 2 \<and>
   (\<lambda>p. Inr (bytes_of ''#!/bin/sh'')) ([''extract-buildinfo'', ''run.sh''] ! 1) = Inr (bytes_of ''#!/bin/sh'') \<and>
   4 \<le> length (bytes_of ''#!/bin/sh'') \<and>
   take 4 (bytes_of ''#!/bin/sh'') \<noteq> ELFMAG \<and>
   take 4 (bytes_of ''#!/bin/sh'') \<noteq> MH_MAGIC_64_bytes \<and>
   take 4 (bytes_of ''#!/bin/sh'') \<noteq> MH_CIGAM_64_bytes \<and>
   main linux [''extract-buildinfo'', ''run.sh'']
     (\<lambda>p. Inr (bytes_of ''#!/bin/sh'')) =
     (Inl (Failure ''Unknown or unsupported binary format\<newline>''),
      Some \<lparr>content = bytes_of ''#!/bin/sh'', pos = 4, calls = [Fread 4 1]\<rparr>)"
  using unknown_magic_rejected [of "[''extract-buildinfo'', ''run.sh'']"
      "\<lambda>p. Inr (bytes_of ''#!/bin/sh'')" "bytes_of ''#!/bin/sh''"
      linux]
  by (simp add: bytes_of_def ELFMAG_def MH_MAGIC_64_bytes_def MH_CIGAM_64_bytes_def)

subsection \<open>C9: the walk over the load commands ends\<close>

text \<open>
  C9. The walk over the load commands ends, whatever the file: the loop that starts at
  index \<open>i\<close> with bound \<open>n\<close> enters its body at most \<open>n - i\<close> times (\<^verbatim>\<open>ftell\<close> is called once at
  the top of each turn and nowhere else) and reads at most \<open>(n - i) * (2 ^ 32 + 2)\<close> times;
  the extractor as a whole makes at most \<^verbatim>\<open>ncmds\<close> turns and \<open>1 + ncmds * (2 ^ 32 + 2)\<close> reads
  for the \<^verbatim>\<open>ncmds\<close> of the header. A command of \<^verbatim>\<open>cmdsize\<close> 0 leaves the position where
  the turn found it, and the bounds hold all the same.
\<close>

theorem macho_walk_bounded:
  "n_calls is_Ftell (snd (for_loop (load_command_step e) n i f)) \<le> n_calls is_Ftell f + (n - i) \<and>
   n_calls is_Fread (snd (for_loop (load_command_step e) n i f)) \<le>
     n_calls is_Fread f + (n - i) * (2 ^ 32 + 2) \<and>
   n_calls is_Ftell (snd (extract_macho_buildinfo e f)) \<le>
     n_calls is_Ftell f + unat (ncmds (decode_mach_header_64 (take 32 (content f)))) \<and>
   n_calls is_Fread (snd (extract_macho_buildinfo e f)) \<le>
     n_calls is_Fread f + 1 + unat (ncmds (decode_mach_header_64 (take 32 (content f)))) * (2 ^ 32 + 2) \<and>
   (fst (load_command_step e f) = None \<and>
    cmdsize (decode_load_command (slice (content f) (pos f) 8)) = 0 \<longrightarrow>
      pos (snd (load_command_step e f)) = pos f)"
proof -
  let ?f2 = "snd (fread 32 1 (rewind f))"
  let ?n = "unat (ncmds (decode_mach_header_64 (take 32 (content f))))"
  have h: "fst (fst (fread 32 (Suc 0) (rewind f))) = take 32 (content f)"
    by (simp add: fread_def rewind_def)
  have t: "n_calls is_Ftell (snd (for_loop (load_command_step e) ?n 0 ?f2)) \<le> n_calls is_Ftell f + ?n"
    using n_calls_command_loop(1) [of e ?n 0 ?f2] by simp
  have r: "n_calls is_Fread (snd (for_loop (load_command_step e) ?n 0 ?f2)) \<le>
      n_calls is_Fread f + 1 + ?n * (2 ^ 32 + 2)"
    using n_calls_command_loop(2) [of e ?n 0 ?f2] by simp
  have "n_calls is_Ftell (snd (extract_macho_buildinfo e f)) \<le> n_calls is_Ftell f + ?n"
    using t by (auto simp: extract_macho_buildinfo_def Let_def split_def h split: option.splits)
  moreover have "n_calls is_Fread (snd (extract_macho_buildinfo e f)) \<le>
      n_calls is_Fread f + 1 + ?n * (2 ^ 32 + 2)"
    using r by (auto simp: extract_macho_buildinfo_def Let_def split_def h split: option.splits)
  ultimately show ?thesis
    using n_calls_command_loop [of e n i f] load_command_step_cmdsize_0 [of e f] by simp
qed

theorem macho_walk_bounded_witness:
  "fst (load_command_step macos \<lparr>content = macho_zero, pos = 32, calls = []\<rparr>) = None \<and>
   cmdsize (decode_load_command (slice macho_zero 32 8)) = 0 \<and>
   pos (snd (load_command_step macos \<lparr>content = macho_zero, pos = 32, calls = []\<rparr>)) = 32 \<and>
   unat (ncmds (decode_mach_header_64 (take 32 macho_zero))) = 3 \<and>
   n_calls is_Ftell (snd (extract_macho_buildinfo macos (fopen_rb macho_zero))) = 3 \<and>
   n_calls is_Fread (snd (extract_macho_buildinfo macos (fopen_rb macho_zero))) = 4 \<and>
   fst (extract_macho_buildinfo macos (fopen_rb macho_zero)) =
     Inl (Failure ''No __buildinfo section found in binary\<newline>'')"
proof -
  let ?f = "\<lparr>content = macho_zero, pos = 32, calls = []\<rparr>"
  have a: "fst (load_command_step macos ?f) = None"
    by (simp add: model_defs fixture_defs decode_defs)
  have b: "cmdsize (decode_load_command (slice macho_zero 32 8)) = 0"
    by (simp add: fixture_defs decode_defs)
  have c: "unat (ncmds (decode_mach_header_64 (take 32 macho_zero))) = 3"
    by (simp add: fixture_defs decode_defs)
  have d: "n_calls is_Ftell (snd (extract_macho_buildinfo macos (fopen_rb macho_zero))) = 3"
    "n_calls is_Fread (snd (extract_macho_buildinfo macos (fopen_rb macho_zero))) = 4"
    "fst (extract_macho_buildinfo macos (fopen_rb macho_zero)) =
       Inl (Failure ''No __buildinfo section found in binary\<newline>'')"
    by (simp_all add: n_calls_def model_defs fixture_defs decode_defs)
  show ?thesis
    using macho_walk_bounded [of macos 3 0 ?f] a b c d by simp
qed

subsection \<open>C10: two runs on one file\<close>




end
